theory Spec2Isabelle
  imports Main "HOL-Library.Char_ord" "HOL-Library.List_Lexorder" "HOL-Library.Multiset"
begin

section \<open>Exceptions\<close>

text \<open>
  The C\# code signals failure by exceptions.  Every call that can throw returns a value of
  \<open>exn + 'a\<close>, with \<open>Inl\<close> the exception.  \<open>EngineException\<close> stands for any exception
  thrown inside the two-phase search engine; it carries that exception's message.
\<close>

datatype exn =
    IndexOutOfRangeException
  | ArgumentException string
  | KeyNotFoundException string
  | EngineException string

text \<open>\<open>ex.Message\<close>.  The texts of the first and third line are the runtime's.\<close>

fun Message :: "exn \<Rightarrow> string" where
  "Message IndexOutOfRangeException = ''Index was outside the bounds of the array.''"
| "Message (ArgumentException m) = m"
| "Message (KeyNotFoundException k) =
     ''The given key '' @ [CHR 0x27] @ k @ [CHR 0x27] @ '' was not present in the dictionary.''"
| "Message (EngineException m) = m"

text \<open>Reading \<open>a[i]\<close> from an array: out of range throws.\<close>

definition get :: "'a list \<Rightarrow> nat \<Rightarrow> exn + 'a" where
  "get a i = (if i < length a then Inr (a ! i) else Inl IndexOutOfRangeException)"

text \<open>\<open>string.Join(sep, xs)\<close>.\<close>

fun Join :: "string \<Rightarrow> string list \<Rightarrow> string" where
  "Join sep [] = []"
| "Join sep [x] = x"
| "Join sep (x # y # ys) = x @ sep @ Join sep (y # ys)"

section \<open>Models/CubeState.cs\<close>

text \<open>
  A cube state has six faces, each an array of sticker colours.  A colour token is a string
  (\<open>"W"\<close>, \<open>"Y"\<close>, \<open>"G"\<close>, \<open>"B"\<close>, \<open>"R"\<close>, \<open>"O"\<close> on a well-formed cube).  The arrays have
  nine elements when the object is constructed, but the setters accept an array of any
  length, so the model keeps each face as a list and \<open>get\<close> throws where the array is short.
\<close>

record CubeState =
  U :: "string list"
  D :: "string list"
  F :: "string list"
  B :: "string list"
  R :: "string list"
  L :: "string list"

text \<open>\<open>Array.Fill(a, v)\<close> overwrites every element and keeps the length.\<close>

definition Array_Fill :: "string list \<Rightarrow> string \<Rightarrow> string list" where
  "Array_Fill a v = map (\<lambda>_. v) a"

definition Reset :: "CubeState \<Rightarrow> CubeState" where
  "Reset cs = cs\<lparr> U := Array_Fill (U cs) ''W'', D := Array_Fill (D cs) ''Y'',
                 F := Array_Fill (F cs) ''G'', B := Array_Fill (B cs) ''B'',
                 R := Array_Fill (R cs) ''R'', L := Array_Fill (L cs) ''O'' \<rparr>"

text \<open>
  \<open>new string[9]\<close>: nine null elements, written here as empty strings.  The constructor
  calls \<open>Reset\<close>, which overwrites all of them before any is read.
\<close>

definition new_string_array :: "nat \<Rightarrow> string list" where
  "new_string_array n = replicate n []"

definition new_CubeState :: CubeState where
  "new_CubeState =
     Reset \<lparr> U = new_string_array 9, D = new_string_array 9, F = new_string_array 9,
             B = new_string_array 9, R = new_string_array 9, L = new_string_array 9 \<rparr>"

definition GetSolvedState :: CubeState where
  "GetSolvedState = new_CubeState"

text \<open>The dictionary \<open>colorToFace\<close>, in insertion order.\<close>

definition colorToFace :: "(string \<times> char) list" where
  "colorToFace =
     [(''W'', CHR ''U''), (''R'', CHR ''R''), (''G'', CHR ''F''),
      (''Y'', CHR ''D''), (''O'', CHR ''L''), (''B'', CHR ''B'')]"

text \<open>
  \<open>colorToFace[color]\<close>: the indexer throws on a key that is not present.  A sticker
  that is \<open>null\<close> is written as the empty string, as in \<open>new_string_array\<close>: for it the
  indexer throws as well, an \<open>ArgumentNullException\<close> in place of the
  \<open>KeyNotFoundException\<close>, so that only the text of the message differs.
\<close>

definition colorToFace_item :: "string \<Rightarrow> exn + char" where
  "colorToFace_item color =
     (case map_of colorToFace color of
        None \<Rightarrow> Inl (KeyNotFoundException color)
      | Some c \<Rightarrow> Inr c)"

text \<open>One \<open>foreach (var color in face) sb.Append(colorToFace[color])\<close> loop.\<close>

fun appendFace :: "string \<Rightarrow> string list \<Rightarrow> exn + string" where
  "appendFace sb [] = Inr sb"
| "appendFace sb (color # rest) =
     (case colorToFace_item color of
        Inl e \<Rightarrow> Inl e
      | Inr c \<Rightarrow> appendFace (sb @ [c]) rest)"

text \<open>The six loops run one after the other, in the order U, R, F, D, L, B.\<close>

fun appendFaces :: "string \<Rightarrow> string list list \<Rightarrow> exn + string" where
  "appendFaces sb [] = Inr sb"
| "appendFaces sb (face # faces) =
     (case appendFace sb face of
        Inl e \<Rightarrow> Inl e
      | Inr sb' \<Rightarrow> appendFaces sb' faces)"

definition ToKociembaString :: "CubeState \<Rightarrow> exn + string" where
  "ToKociembaString cs = appendFaces [] [U cs, R cs, F cs, D cs, L cs, B cs]"

definition IsSolved :: "CubeState \<Rightarrow> bool" where
  "IsSolved cs \<longleftrightarrow>
     list_all (\<lambda>c. c = ''W'') (U cs) \<and> list_all (\<lambda>c. c = ''Y'') (D cs) \<and>
     list_all (\<lambda>c. c = ''G'') (F cs) \<and> list_all (\<lambda>c. c = ''B'') (B cs) \<and>
     list_all (\<lambda>c. c = ''R'') (R cs) \<and> list_all (\<lambda>c. c = ''O'') (L cs)"

subsection \<open>ValidationResult\<close>

record ValidationResult =
  MissingEdges :: "string list"
  DuplicateEdges :: "string list"
  InvalidEdges :: "string list"
  MissingCorners :: "string list"
  DuplicateCorners :: "string list"
  InvalidCorners :: "string list"

definition HasIssues :: "ValidationResult \<Rightarrow> bool" where
  "HasIssues r \<longleftrightarrow>
     length (MissingEdges r) > 0 \<or> length (DuplicateEdges r) > 0 \<or>
     length (InvalidEdges r) > 0 \<or> length (MissingCorners r) > 0 \<or>
     length (DuplicateCorners r) > 0 \<or> length (InvalidCorners r) > 0"

definition GetDetailedMessage :: "ValidationResult \<Rightarrow> string" where
  "GetDetailedMessage r =
     Join ''. ''
       ((if length (InvalidEdges r) > 0
           then [''Invalid edges: '' @ Join ''; '' (InvalidEdges r)] else []) @
        (if length (MissingEdges r) > 0
           then [''Missing edges: '' @ Join '', '' (MissingEdges r)] else []) @
        (if length (DuplicateEdges r) > 0
           then [''Duplicate edges: '' @ Join ''; '' (DuplicateEdges r)] else []) @
        (if length (InvalidCorners r) > 0
           then [''Invalid corners: '' @ Join ''; '' (InvalidCorners r)] else []) @
        (if length (MissingCorners r) > 0
           then [''Missing corners: '' @ Join '', '' (MissingCorners r)] else []) @
        (if length (DuplicateCorners r) > 0
           then [''Duplicate corners: '' @ Join ''; '' (DuplicateCorners r)] else []))"

subsection \<open>ValidateState\<close>

text \<open>The two hash sets, in insertion order (the order \<open>foreach\<close> enumerates them in).\<close>

definition validEdges :: "string list" where
  "validEdges =
     [''GW'', ''RW'', ''BW'', ''OW'',
      ''GY'', ''RY'', ''BY'', ''OY'',
      ''GR'', ''GO'', ''BR'', ''BO'']"

definition validCorners :: "string list" where
  "validCorners =
     [''GRW'', ''GOW'', ''BRW'', ''BOW'',
      ''GRY'', ''GOY'', ''BRY'', ''BOY'']"

type_synonym edgePosition = "string \<times> nat \<times> string \<times> nat \<times> string"
type_synonym cornerPosition = "string \<times> nat \<times> string \<times> nat \<times> string \<times> nat \<times> string"

definition edgePositions :: "edgePosition list" where
  "edgePositions =
     [(''U'', 7, ''F'', 1, ''UF''), (''U'', 5, ''R'', 1, ''UR''),
      (''U'', 1, ''B'', 1, ''UB''), (''U'', 3, ''L'', 1, ''UL''),
      (''D'', 1, ''F'', 7, ''DF''), (''D'', 5, ''R'', 7, ''DR''),
      (''D'', 7, ''B'', 7, ''DB''), (''D'', 3, ''L'', 7, ''DL''),
      (''F'', 5, ''R'', 3, ''FR''), (''F'', 3, ''L'', 5, ''FL''),
      (''B'', 3, ''R'', 5, ''BR''), (''B'', 5, ''L'', 3, ''BL'')]"

definition cornerPositions :: "cornerPosition list" where
  "cornerPositions =
     [(''U'', 8, ''F'', 2, ''R'', 0, ''UFR''), (''U'', 6, ''F'', 0, ''L'', 2, ''UFL''),
      (''U'', 2, ''B'', 0, ''R'', 2, ''UBR''), (''U'', 0, ''B'', 2, ''L'', 0, ''UBL''),
      (''D'', 2, ''F'', 8, ''R'', 6, ''DFR''), (''D'', 0, ''F'', 6, ''L'', 8, ''DFL''),
      (''D'', 8, ''B'', 6, ''R'', 8, ''DBR''), (''D'', 6, ''B'', 8, ''L'', 6, ''DBL'')]"

text \<open>The local function \<open>GetFace\<close>: a switch with a throwing default branch.\<close>

definition GetFace :: "CubeState \<Rightarrow> string \<Rightarrow> exn + string list" where
  "GetFace cs face =
     (if face = ''U'' then Inr (U cs)
      else if face = ''D'' then Inr (D cs)
      else if face = ''F'' then Inr (F cs)
      else if face = ''B'' then Inr (B cs)
      else if face = ''R'' then Inr (R cs)
      else if face = ''L'' then Inr (L cs)
      else Inl (ArgumentException (''Invalid face: '' @ face)))"

text \<open>\<open>GetFace(face)[idx]\<close>.\<close>

definition sticker :: "CubeState \<Rightarrow> string \<Rightarrow> nat \<Rightarrow> exn + string" where
  "sticker cs face idx =
     (case GetFace cs face of
        Inl e \<Rightarrow> Inl e
      | Inr a \<Rightarrow> get a idx)"

text \<open>
  \<open>string.Concat(cols.OrderBy(c => c))\<close>: a stable sort with the default string comparer,
  then concatenation.  On the six one-letter colour tokens the comparer is the alphabetical
  order B < G < O < R < W < Y that the source's comment states; the model orders all
  strings lexicographically by character code, which agrees with it there.
\<close>

definition sortedConcat :: "string list \<Rightarrow> string" where
  "sortedConcat cols = concat (sort cols)"

text \<open>
  \<open>if (!d.ContainsKey(k)) d[k] = new List<string>(); d[k].Add(pos);\<close> on the dictionary
  from sorted colour keys to the position names where they were seen.
\<close>

definition addPosition :: "(string \<rightharpoonup> string list) \<Rightarrow> string \<Rightarrow> string \<Rightarrow> (string \<rightharpoonup> string list)" where
  "addPosition d k pos =
     (case d k of
        None \<Rightarrow> d(k \<mapsto> [pos])
      | Some positions \<Rightarrow> d(k \<mapsto> positions @ [pos]))"

text \<open>
  The first loop, over \<open>edgePositions\<close>.  The state of the loop is the dictionary
  \<open>edgeCounts\<close> and the list \<open>result.InvalidEdges\<close>.
\<close>

fun countEdges :: "CubeState \<Rightarrow> edgePosition list \<Rightarrow>
    (string \<rightharpoonup> string list) \<times> string list \<Rightarrow> exn + ((string \<rightharpoonup> string list) \<times> string list)" where
  "countEdges cs [] acc = Inr acc"
| "countEdges cs ((face1, idx1, face2, idx2, pos) # rest) (edgeCounts, invalid) =
     (case sticker cs face1 idx1 of
        Inl e \<Rightarrow> Inl e
      | Inr c1 \<Rightarrow>
     (case sticker cs face2 idx2 of
        Inl e \<Rightarrow> Inl e
      | Inr c2 \<Rightarrow>
          let sorted = sortedConcat [c1, c2]
          in countEdges cs rest
               (addPosition edgeCounts sorted pos,
                if sorted \<notin> set validEdges
                then invalid @ [c1 @ ''-'' @ c2 @ '' at '' @ pos]
                else invalid)))"

text \<open>
  The second loop, over \<open>validEdges\<close>.  Its state is \<open>result.MissingEdges\<close> and
  \<open>result.DuplicateEdges\<close>.  \<open>validEdge[0]\<close> and \<open>validEdge[1]\<close> are in range: every
  entry of the table has two characters.
\<close>

fun checkEdges :: "(string \<rightharpoonup> string list) \<Rightarrow> string list \<Rightarrow>
    string list \<times> string list \<Rightarrow> string list \<times> string list" where
  "checkEdges edgeCounts [] acc = acc"
| "checkEdges edgeCounts (validEdge # rest) (missing, duplicate) =
     checkEdges edgeCounts rest
       (case edgeCounts validEdge of
          None \<Rightarrow> (missing @ [[validEdge ! 0] @ ''-'' @ [validEdge ! 1]], duplicate)
        | Some positions \<Rightarrow>
            if length positions = 0
            then (missing @ [[validEdge ! 0] @ ''-'' @ [validEdge ! 1]], duplicate)
            else if length positions > 1
            then (missing,
                  duplicate @ [[validEdge ! 0] @ ''-'' @ [validEdge ! 1] @ '' at '' @
                               Join '', '' positions])
            else (missing, duplicate))"

text \<open>The third and fourth loop do the same for the corners.\<close>

fun countCorners :: "CubeState \<Rightarrow> cornerPosition list \<Rightarrow>
    (string \<rightharpoonup> string list) \<times> string list \<Rightarrow> exn + ((string \<rightharpoonup> string list) \<times> string list)" where
  "countCorners cs [] acc = Inr acc"
| "countCorners cs ((face1, idx1, face2, idx2, face3, idx3, pos) # rest) (cornerCounts, invalid) =
     (case sticker cs face1 idx1 of
        Inl e \<Rightarrow> Inl e
      | Inr c1 \<Rightarrow>
     (case sticker cs face2 idx2 of
        Inl e \<Rightarrow> Inl e
      | Inr c2 \<Rightarrow>
     (case sticker cs face3 idx3 of
        Inl e \<Rightarrow> Inl e
      | Inr c3 \<Rightarrow>
          let sorted = sortedConcat [c1, c2, c3]
          in countCorners cs rest
               (addPosition cornerCounts sorted pos,
                if sorted \<notin> set validCorners
                then invalid @ [c1 @ ''-'' @ c2 @ ''-'' @ c3 @ '' at '' @ pos]
                else invalid))))"

fun checkCorners :: "(string \<rightharpoonup> string list) \<Rightarrow> string list \<Rightarrow>
    string list \<times> string list \<Rightarrow> string list \<times> string list" where
  "checkCorners cornerCounts [] acc = acc"
| "checkCorners cornerCounts (validCorner # rest) (missing, duplicate) =
     checkCorners cornerCounts rest
       (case cornerCounts validCorner of
          None \<Rightarrow>
            (missing @ [[validCorner ! 0] @ ''-'' @ [validCorner ! 1] @ ''-'' @ [validCorner ! 2]],
             duplicate)
        | Some positions \<Rightarrow>
            if length positions = 0
            then (missing @
                    [[validCorner ! 0] @ ''-'' @ [validCorner ! 1] @ ''-'' @ [validCorner ! 2]],
                  duplicate)
            else if length positions > 1
            then (missing,
                  duplicate @
                    [[validCorner ! 0] @ ''-'' @ [validCorner ! 1] @ ''-'' @ [validCorner ! 2] @
                     '' at '' @ Join '', '' positions])
            else (missing, duplicate))"

text \<open>
  \<open>ValidateState\<close> returns \<open>null\<close> (\<open>None\<close>) when the result has no issues, the result
  otherwise; an exception of one of the reads leaves the method.
\<close>

definition ValidateState :: "CubeState \<Rightarrow> exn + ValidationResult option" where
  "ValidateState cs =
     (case countEdges cs edgePositions (Map.empty, []) of
        Inl e \<Rightarrow> Inl e
      | Inr (edgeCounts, invalidEdges) \<Rightarrow>
     (case checkEdges edgeCounts validEdges ([], []) of
        (missingEdges, duplicateEdges) \<Rightarrow>
     (case countCorners cs cornerPositions (Map.empty, []) of
        Inl e \<Rightarrow> Inl e
      | Inr (cornerCounts, invalidCorners) \<Rightarrow>
     (case checkCorners cornerCounts validCorners ([], []) of
        (missingCorners, duplicateCorners) \<Rightarrow>
          let result = \<lparr> MissingEdges = missingEdges, DuplicateEdges = duplicateEdges,
                         InvalidEdges = invalidEdges, MissingCorners = missingCorners,
                         DuplicateCorners = duplicateCorners, InvalidCorners = invalidCorners \<rparr>
          in Inr (if HasIssues result then Some result else None)))))"

section \<open>Services/CubeSolver.cs\<close>

record SolveResponse =
  Solution :: "string list"
  MoveCount :: int
  SolveTimeMs :: int
  Error :: "string option"

text \<open>\<open>new SolveResponse()\<close>: the property initialisers and the defaults of the fields.\<close>

definition new_SolveResponse :: SolveResponse where
  "new_SolveResponse = \<lparr> Solution = [], MoveCount = 0, SolveTimeMs = 0, Error = None \<rparr>"

text \<open>
  \<open>SearchRunTime.solution\<close>, the two-phase search engine, is not part of the sources at
  hand.  \<open>Solve\<close> takes it as a parameter: a function from the cube string, \<open>maxDepth\<close>,
  \<open>timeOut\<close>, \<open>useSeparator\<close> and \<open>buildTables\<close> to the solution string (which is an
  \<open>"Error n"\<close> code when the engine fails), or to the exception that left the engine.
  The \<open>out info\<close> argument is never read by \<open>Solve\<close>.
\<close>

type_synonym engine = "string \<Rightarrow> int \<Rightarrow> int \<Rightarrow> bool \<Rightarrow> bool \<Rightarrow> exn + string"

text \<open>
  Strings are lists of 8-bit characters, read as the characters U+0000 to U+00FF.  Among
  these \<open>char.IsWhiteSpace\<close> holds of U+0009 to U+000D (tab, line feed, vertical tab,
  form feed, carriage return), of the space, of U+0085 (next line) and of U+00A0
  (no-break space).
\<close>

definition IsWhiteSpace :: "char \<Rightarrow> bool" where
  "IsWhiteSpace c \<longleftrightarrow>
     c \<in> set [CHR 0x09, CHR 0x0A, CHR 0x0B, CHR 0x0C, CHR 0x0D, CHR '' '', CHR 0x85, CHR 0xA0]"

definition IsNullOrWhiteSpace :: "string \<Rightarrow> bool" where
  "IsNullOrWhiteSpace s \<longleftrightarrow> list_all IsWhiteSpace s"

definition Trim :: "string \<Rightarrow> string" where
  "Trim s = rev (dropWhile IsWhiteSpace (rev (dropWhile IsWhiteSpace s)))"

text \<open>\<open>s.Split(sep)\<close> keeps the empty entries; \<open>RemoveEmptyEntries\<close> drops them.\<close>

fun Split :: "char \<Rightarrow> string \<Rightarrow> string list" where
  "Split sep [] = [[]]"
| "Split sep (c # cs) =
     (if c = sep then [] # Split sep cs
      else (case Split sep cs of
              [] \<Rightarrow> [[c]]
            | w # ws \<Rightarrow> (c # w) # ws))"

definition Split_RemoveEmptyEntries :: "char \<Rightarrow> string \<Rightarrow> string list" where
  "Split_RemoveEmptyEntries sep s = filter (\<lambda>m. m \<noteq> []) (Split sep s)"

definition ParseSolution :: "string \<Rightarrow> string list" where
  "ParseSolution solutionString =
     (if IsNullOrWhiteSpace solutionString then []
      else filter (\<lambda>m. m \<noteq> []) (map Trim (Split_RemoveEmptyEntries (CHR '' '') solutionString)))"

text \<open>
  \<open>s.StartsWith(p)\<close> compares by the rules of the current culture.  The model compares
  character by character, which is what the runtime does in its invariant mode and, in
  every culture, on strings of letters, digits, spaces, \<open>'\<close> and \<open>2\<close> such as move
  lists and \<open>"Error n"\<close> codes; a culture may skip characters it ignores (the soft hyphen,
  control characters) in front of the prefix.
\<close>

definition StartsWith :: "string \<Rightarrow> string \<Rightarrow> bool" where
  "StartsWith s p \<longleftrightarrow> take (length p) s = p"

definition GetErrorMessage :: "string \<Rightarrow> string" where
  "GetErrorMessage errorCode =
     (if errorCode = ''Error 1'' then ''Invalid cube: Not exactly one facelet of each color''
      else if errorCode = ''Error 2'' then ''Invalid cube: Not all 12 edges exist exactly once''
      else if errorCode = ''Error 3'' then ''Invalid cube: One edge has to be flipped''
      else if errorCode = ''Error 4'' then ''Invalid cube: Not all 8 corners exist exactly once''
      else if errorCode = ''Error 5'' then ''Invalid cube: One corner has to be twisted''
      else if errorCode = ''Error 6''
        then ''Invalid cube: Two corners or two edges have to be exchanged (parity error)''
      else if errorCode = ''Error 7'' then ''No solution found within max depth''
      else if errorCode = ''Error 8'' then ''Timeout - no solution found within time limit''
      else errorCode)"

definition solvedKociembaString :: string where
  "solvedKociembaString = ''UUUUUUUUURRRRRRRRRFFFFFFFFFDDDDDDDDDLLLLLLLLLBBBBBBBBB''"

text \<open>
  The body of the \<open>try\<close> block of \<open>Solve\<close>, run to the \<open>return\<close> it reaches: \<open>Inr\<close> the
  response returned, \<open>Inl\<close> the exception that leaves the block.  \<open>ms\<close> is what the
  stopwatch reads when \<open>sw.ElapsedMilliseconds\<close> is evaluated; each path reads it once.
\<close>

definition Solve_try :: "engine \<Rightarrow> int \<Rightarrow> CubeState \<Rightarrow> SolveResponse \<Rightarrow> exn + SolveResponse" where
  "Solve_try solution ms state response =
     (case ValidateState state of
        Inl ex \<Rightarrow> Inl ex
      | Inr (Some validationResult) \<Rightarrow>
          Inr (response\<lparr> Error := Some (''Invalid cube: '' @ GetDetailedMessage validationResult),
                         SolveTimeMs := ms \<rparr>)
      | Inr None \<Rightarrow>
     (case ToKociembaString state of
        Inl ex \<Rightarrow> Inl ex
      | Inr kociembaString \<Rightarrow>
          if kociembaString = solvedKociembaString
          then Inr (response\<lparr> Solution := [], MoveCount := 0, SolveTimeMs := ms \<rparr>)
          else
     (case solution kociembaString 22 10000 False False of
        Inl ex \<Rightarrow> Inl ex
      | Inr solutionString \<Rightarrow>
          if StartsWith solutionString ''Error''
          then Inr (response\<lparr> Error := Some (GetErrorMessage solutionString),
                              SolveTimeMs := ms \<rparr>)
          else
            let moves = ParseSolution solutionString
            in Inr (response\<lparr> Solution := moves, MoveCount := int (length moves),
                               SolveTimeMs := ms \<rparr>))))"

text \<open>
  \<open>Solve\<close>: the \<open>try\<close> block and its \<open>catch (Exception ex)\<close>.  Every call that can throw
  comes before the first write to \<open>response\<close> on its path, so the handler sees the
  response as it was constructed.  The result is a sum like that of any other method:
  \<open>Inl\<close> would be an exception that reaches the caller.
\<close>

definition Solve :: "engine \<Rightarrow> int \<Rightarrow> CubeState \<Rightarrow> exn + SolveResponse" where
  "Solve solution ms state =
     (let response = new_SolveResponse
      in case Solve_try solution ms state response of
           Inr r \<Rightarrow> Inr r
         | Inl ex \<Rightarrow> Inr (response\<lparr> Error := Some (Message ex), SolveTimeMs := ms \<rparr>))"

section \<open>The cubie cube\<close>

unbundle bit_operations_syntax

text \<open>
  Modelled from the spec: the class \<open>CubieCube\<close>, which is not part of the sources at hand.
  A cubie cube is a permutation of the 8 corner pieces over the 8 corner slots with 8
  orientation values, and a permutation of the 12 edge pieces over the 12 edge slots with
  12 orientation values.  Pieces and slots are numbered from 0.
\<close>

record CubieCube =
  cp :: "nat list"
  co :: "nat list"
  ep :: "nat list"
  eo :: "nat list"

text \<open>Modelled from the spec: \<open>new CubieCube()\<close>, the identity element (the solved cube).\<close>

definition new_CubieCube :: CubieCube where
  "new_CubieCube = \<lparr> cp = [0..<8], co = replicate 8 0, ep = [0..<12], eo = replicate 12 0 \<rparr>"

text \<open>
  Modelled from the spec: the parity of a permutation, as the number of its inversions
  modulo 2; \<open>cornerParity\<close> and \<open>edgeParity\<close> are absent from the sources.
\<close>

fun inversions :: "nat list \<Rightarrow> nat" where
  "inversions [] = 0"
| "inversions (x # xs) = length (filter (\<lambda>y. y < x) xs) + inversions xs"

definition cornerParity :: "CubieCube \<Rightarrow> nat" where
  "cornerParity cc = inversions (cp cc) mod 2"

definition edgeParity :: "CubieCube \<Rightarrow> nat" where
  "edgeParity cc = inversions (ep cc) mod 2"

text \<open>
  Modelled from the spec: \<open>CubieCube.verify\<close>, absent from the sources.  The spec names the
  six defects and the comment above \<open>Tools.verify\<close> gives their codes: -2 not all 12 edges
  exist exactly once, -3 one edge has to be flipped (the edge orientations do not sum to 0
  modulo 2), -4 not all 8 corners exist exactly once, -5 one corner has to be twisted (the
  corner orientations do not sum to 0 modulo 3), -6 the parities of the corner and of the
  edge permutation differ; 0 is a solvable cube.  The defects are looked for in the order
  of their codes.
\<close>

definition CubieCube_verify :: "CubieCube \<Rightarrow> int" where
  "CubieCube_verify cc =
     (if \<not> list_all (\<lambda>e. count_list (ep cc) e = 1) [0..<12] then - 2
      else if sum_list (eo cc) mod 2 \<noteq> 0 then - 3
      else if \<not> list_all (\<lambda>c. count_list (cp cc) c = 1) [0..<8] then - 4
      else if sum_list (co cc) mod 3 \<noteq> 0 then - 5
      else if (edgeParity cc XOR cornerParity cc) \<noteq> 0 then - 6
      else 0)"

text \<open>
  Modelled from the spec: the coordinate setters of \<open>CubieCube\<close>, absent from the sources.
  A coordinate is a bounded integer that encodes one aspect of the cube.  The twist
  coordinate has \<open>2187 = 3^7\<close> values: it gives seven corner orientations as its digits to
  the base 3, and the eighth is what makes the sum 0 modulo 3.  The flip coordinate has
  \<open>2048 = 2^11\<close> values: eleven edge orientations are its binary digits, and the twelfth
  is what makes the sum even.  A permutation coordinate encodes a permutation of all
  pieces of its kind; the spec leaves the encoding open, and the model reads the index in
  the factorial number system, each digit giving the place where the next piece goes
  among those placed so far.
\<close>

fun digits :: "nat \<Rightarrow> nat \<Rightarrow> nat \<Rightarrow> nat list" where
  "digits b 0 v = []"
| "digits b (Suc n) v = (v mod b) # digits b n (v div b)"

definition setTwist :: "nat \<Rightarrow> CubieCube \<Rightarrow> CubieCube" where
  "setTwist twist cc =
     (let ds = digits 3 7 twist
      in cc\<lparr> co := ds @ [(3 - sum_list ds mod 3) mod 3] \<rparr>)"

definition setFlip :: "nat \<Rightarrow> CubieCube \<Rightarrow> CubieCube" where
  "setFlip flip cc =
     (let ds = digits 2 11 flip
      in cc\<lparr> eo := ds @ [(2 - sum_list ds mod 2) mod 2] \<rparr>)"

fun decodePerm :: "nat \<Rightarrow> nat list \<Rightarrow> nat list" where
  "decodePerm idx [] = []"
| "decodePerm idx (p # ps) =
     (let k = idx mod Suc (length ps);
          rest = decodePerm (idx div Suc (length ps)) ps
      in take k rest @ [p] @ drop k rest)"

definition setURFtoDLB :: "nat \<Rightarrow> CubieCube \<Rightarrow> CubieCube" where
  "setURFtoDLB idx cc = cc\<lparr> cp := decodePerm idx [0..<8] \<rparr>"

definition setURtoBR :: "nat \<Rightarrow> CubieCube \<Rightarrow> CubieCube" where
  "setURtoBR idx cc = cc\<lparr> ep := decodePerm idx [0..<12] \<rparr>"

section \<open>Kociemba/K\_Tools.cs\<close>

text \<open>
  Modelled from the spec: the enum \<open>CubeColor\<close>, absent from the sources, has the six
  faces in the fixed order U, R, F, D, L, B.  \<open>Enum.Parse\<close> accepts the name of a constant
  and also the decimal text of a value, defined or not; on the one-character strings that
  \<open>verify\<close> passes, that is one of the six letters or one digit.
\<close>

definition CubeColor :: "(string \<times> int) list" where
  "CubeColor = [(''U'', 0), (''R'', 1), (''F'', 2), (''D'', 3), (''L'', 4), (''B'', 5)]"

definition Enum_Parse_CubeColor :: "string \<Rightarrow> exn + int" where
  "Enum_Parse_CubeColor v =
     (case map_of CubeColor v of
        Some n \<Rightarrow> Inr n
      | None \<Rightarrow>
          (case map_of (zip (map (\<lambda>d. [d]) ''0123456789'') (map int [0..<10])) v of
             Some n \<Rightarrow> Inr n
           | None \<Rightarrow> Inl (ArgumentException (''Requested value '' @ v @ '' was not found.''))))"

text \<open>
  The counting loop of \<open>verify\<close>: \<open>n\<close> more rounds from index \<open>i\<close>.  The read \<open>s[i]\<close>,
  the parse and the write to the array \<open>count\<close> (here \<open>cnt\<close>) can each throw.  \<open>parse\<close> is
  \<open>Enum.Parse(typeof(CubeColor), _)\<close>, taken as a parameter.
\<close>

fun countLoop :: "(string \<Rightarrow> exn + int) \<Rightarrow> string \<Rightarrow> nat \<Rightarrow> nat \<Rightarrow> int list \<Rightarrow> exn + int list" where
  "countLoop parse s i 0 cnt = Inr cnt"
| "countLoop parse s i (Suc n) cnt =
     (case get s i of
        Inl e \<Rightarrow> Inl e
      | Inr ch \<Rightarrow>
     (case parse [ch] of
        Inl e \<Rightarrow> Inl e
      | Inr v \<Rightarrow>
          if 0 \<le> v \<and> nat v < length cnt
          then countLoop parse s (Suc i) n (cnt[nat v := cnt ! nat v + 1])
          else Inl IndexOutOfRangeException))"

text \<open>
  \<open>Tools.verify\<close>.  \<open>toCubieCube\<close> stands for \<open>new FaceCube(s).toCubieCube()\<close>, the
  facelet-to-cubie converter, whose tables are not part of the sources at hand.
\<close>

definition verify :: "(string \<Rightarrow> exn + int) \<Rightarrow> (string \<Rightarrow> CubieCube) \<Rightarrow> string \<Rightarrow> int" where
  "verify parse toCubieCube s =
     (case countLoop parse s 0 54 (replicate 6 0) of
        Inl e \<Rightarrow> - 1
      | Inr cnt \<Rightarrow>
          if \<not> list_all (\<lambda>i. cnt ! i = 9) [0..<6] then - 1
          else CubieCube_verify (toCubieCube s))"

text \<open>
  The rejection loop of \<open>randomCube\<close>.  \<open>draws\<close> are the pairs of numbers that the
  generator yields for \<open>gen.Next(N_URFtoDLB)\<close> and \<open>gen.Next(N_URtoBR)\<close>, round by round;
  \<open>None\<close> means that the loop is still running after all of them.
\<close>

fun samplePermutations :: "CubieCube \<Rightarrow> (nat \<times> nat) list \<Rightarrow> CubieCube option" where
  "samplePermutations cc [] = None"
| "samplePermutations cc ((a, b) # draws) =
     (let cc' = setURtoBR b (setURFtoDLB a cc)
      in if (edgeParity cc' XOR cornerParity cc') \<noteq> 0
         then samplePermutations cc' draws
         else Some cc')"

text \<open>
  \<open>Tools.randomCube\<close>.  \<open>flip\<close> and \<open>twist\<close> are what the generator yields for
  \<open>gen.Next(N_FLIP)\<close> and \<open>gen.Next(N_TWIST)\<close>; \<open>to_fc_String\<close> stands for
  \<open>cc.toFaceCube().to_fc_String()\<close>, whose tables are not part of the sources at hand.
\<close>

definition randomCube :: "(CubieCube \<Rightarrow> string) \<Rightarrow> nat \<Rightarrow> nat \<Rightarrow> (nat \<times> nat) list \<Rightarrow> string option" where
  "randomCube to_fc_String flip twist draws =
     (case samplePermutations (setTwist twist (setFlip flip new_CubieCube)) draws of
        None \<Rightarrow> None
      | Some cc \<Rightarrow> Some (to_fc_String cc))"

section \<open>The search engine\<close>

text \<open>
  Modelled from the spec: the 18 move tokens of the engine's output, which is not part of
  the sources at hand.  A face letter alone is the clockwise quarter turn of the face,
  followed by \<open>2\<close> it is the half turn and followed by \<open>'\<close> the counter-clockwise quarter
  turn; the faces come in the order U, D, F, B, R, L.
\<close>

definition moveTokens :: "string list" where
  "moveTokens = concat (map (\<lambda>face. [[face], [face, CHR ''2''], [face, CHR 0x27]]) ''UDFBRL'')"

text \<open>
  Modelled from the spec: the outcomes of the search of \<open>SearchRunTime\<close>, absent from the
  sources: a list of moves, or one of the two terminal outcomes DepthExceeded and TimedOut.
\<close>

datatype outcome = Found "string list" | DepthExceeded | TimedOut

text \<open>
  Modelled from the spec: the move lists of \<open>d\<close> moves, in the order in which a
  depth-first search over the move tokens reaches them.
\<close>

fun sequences :: "nat \<Rightarrow> string list list" where
  "sequences 0 = [[]]"
| "sequences (Suc d) = concat (map (\<lambda>m. map ((#) m) (sequences d)) moveTokens)"

text \<open>
  Modelled from the spec: the acceptance test of the search.  A list of moves is accepted
  when the moves, applied to the cube one after the other, give the identity.  \<open>Compose\<close>
  applies one move to a cubie cube; its move tables are not part of the sources at hand,
  and it is a parameter.
\<close>

definition solves :: "(CubieCube \<Rightarrow> string \<Rightarrow> CubieCube) \<Rightarrow> CubieCube \<Rightarrow> string list \<Rightarrow> bool" where
  "solves Compose cc moves \<longleftrightarrow> foldl Compose cc moves = new_CubieCube"

text \<open>
  Modelled from the spec: the search under one depth budget.  The move lists of that depth
  are the search nodes at which a solution is looked for; \<open>n\<close> is the number of nodes
  visited so far.  At a node the elapsed wall-clock time is read first, and the search is
  aborted with TimedOut when it exceeds \<open>timeOut\<close>; otherwise the node is accepted when
  it is a solution.  \<open>elapsed n\<close> is what the clock reads, in milliseconds, at the node
  number \<open>n\<close>, counted from 0.  \<open>Inr\<close> is the number of nodes visited when the budget is
  used up.
\<close>

fun scan :: "(nat \<Rightarrow> int) \<Rightarrow> int \<Rightarrow> (string list \<Rightarrow> bool) \<Rightarrow> string list list \<Rightarrow> nat \<Rightarrow> outcome + nat" where
  "scan elapsed timeOut goal [] n = Inr n"
| "scan elapsed timeOut goal (moves # rest) n =
     (if timeOut < elapsed n then Inl TimedOut
      else if goal moves then Inl (Found moves)
      else scan elapsed timeOut goal rest (Suc n))"

text \<open>
  Modelled from the spec: iterative deepening.  The depth budgets \<open>d\<close>, \<open>d + 1\<close>, ... are
  tried in turn, \<open>budgets\<close> of them; when none is left the outcome is DepthExceeded.
\<close>

fun deepen :: "(nat \<Rightarrow> int) \<Rightarrow> int \<Rightarrow> (string list \<Rightarrow> bool) \<Rightarrow> nat \<Rightarrow> nat \<Rightarrow> nat \<Rightarrow> outcome" where
  "deepen elapsed timeOut goal 0 d n = DepthExceeded"
| "deepen elapsed timeOut goal (Suc budgets) d n =
     (case scan elapsed timeOut goal (sequences d) n of
        Inl out \<Rightarrow> out
      | Inr n' \<Rightarrow> deepen elapsed timeOut goal budgets (Suc d) n')"

text \<open>
  Modelled from the spec: the search for one cube.  It starts with the depth budget 0 at
  the node 0 and ends with the budget \<open>maxDepth\<close>, so that no list of more than
  \<open>maxDepth\<close> moves is ever looked at.  The pruning tables, the two phases and the rules
  on the order of moves, by which the engine visits fewer nodes, are left out.
\<close>

definition search :: "(CubieCube \<Rightarrow> string \<Rightarrow> CubieCube) \<Rightarrow> (nat \<Rightarrow> int) \<Rightarrow> CubieCube \<Rightarrow> int \<Rightarrow> int \<Rightarrow> outcome" where
  "search Compose elapsed cc maxDepth timeOut =
     deepen elapsed timeOut (solves Compose cc) (nat (maxDepth + 1)) 0 0"

text \<open>
  Modelled from the spec: \<open>SearchRunTime.solution\<close>, absent from the sources.  The defects
  of the cube string are detected before the search: the string is verified, and the code
  \<open>-n\<close> of \<open>verify\<close> is returned as \<open>"Error n"\<close> (the texts that \<open>GetErrorMessage\<close> has
  for \<open>"Error 1"\<close> to \<open>"Error 6"\<close> are those of the codes -1 to -6).  Then the search
  runs: a solution is returned as its moves separated by spaces, DepthExceeded as
  \<open>"Error 7"\<close> and TimedOut as \<open>"Error 8"\<close>.  The parser of colours, the
  facelet-to-cubie converter, the move tables and the clock are parameters;
  \<open>useSeparator\<close> and \<open>buildTables\<close> do not bear on the result.
\<close>

definition SearchRunTime_solution ::
  "(string \<Rightarrow> exn + int) \<Rightarrow> (string \<Rightarrow> CubieCube) \<Rightarrow> (CubieCube \<Rightarrow> string \<Rightarrow> CubieCube) \<Rightarrow>
   (nat \<Rightarrow> int) \<Rightarrow> engine" where
  "SearchRunTime_solution parse toCubieCube Compose elapsed facelets maxDepth timeOut
       useSeparator buildTables =
     (let v = verify parse toCubieCube facelets
      in if v \<noteq> 0 then Inr (''Error '' @ [''0123456'' ! nat (- v)])
         else (case search Compose elapsed (toCubieCube facelets) maxDepth timeOut of
                 Found moves \<Rightarrow> Inr (Join '' '' moves)
               | DepthExceeded \<Rightarrow> Inr ''Error 7''
               | TimedOut \<Rightarrow> Inr ''Error 8''))"

section \<open>Concrete layouts\<close>

text \<open>The solved cube after one clockwise turn of the upper face.\<close>

definition turnedU :: CubeState where
  "turnedU =
     \<lparr> U = [''W'', ''W'', ''W'', ''W'', ''W'', ''W'', ''W'', ''W'', ''W''],
       D = [''Y'', ''Y'', ''Y'', ''Y'', ''Y'', ''Y'', ''Y'', ''Y'', ''Y''],
       F = [''R'', ''R'', ''R'', ''G'', ''G'', ''G'', ''G'', ''G'', ''G''],
       B = [''O'', ''O'', ''O'', ''B'', ''B'', ''B'', ''B'', ''B'', ''B''],
       R = [''B'', ''B'', ''B'', ''R'', ''R'', ''R'', ''R'', ''R'', ''R''],
       L = [''G'', ''G'', ''G'', ''O'', ''O'', ''O'', ''O'', ''O'', ''O''] \<rparr>"

text \<open>The solved cube with the sticker \<open>U[7]\<close> replaced by the unknown token \<open>"X"\<close>.\<close>

definition unknownUF :: CubeState where
  "unknownUF = new_CubeState\<lparr> U := (U new_CubeState)[7 := ''X''] \<rparr>"

text \<open>The solved cube with other tokens on its six centre stickers.\<close>

definition wrongCenters :: CubeState where
  "wrongCenters =
     \<lparr> U = [''W'', ''W'', ''W'', ''W'', ''X'', ''W'', ''W'', ''W'', ''W''],
       D = [''Y'', ''Y'', ''Y'', ''Y'', ''W'', ''Y'', ''Y'', ''Y'', ''Y''],
       F = [''G'', ''G'', ''G'', ''G'', ''W'', ''G'', ''G'', ''G'', ''G''],
       B = [''B'', ''B'', ''B'', ''B'', ''B'', ''B'', ''B'', ''B'', ''B''],
       R = [''R'', ''R'', ''R'', ''R'', [], ''R'', ''R'', ''R'', ''R''],
       L = [''O'', ''O'', ''O'', ''O'', ''purple'', ''O'', ''O'', ''O'', ''O''] \<rparr>"

text \<open>The solved cube with the sticker \<open>U[7]\<close> replaced by yellow.\<close>

definition yellowUF :: CubeState where
  "yellowUF = new_CubeState\<lparr> U := (U new_CubeState)[7 := ''Y''] \<rparr>"

text \<open>The solved cube with a yellow sticker on the centre of the upper face.\<close>

definition yellowCenter :: CubeState where
  "yellowCenter = new_CubeState\<lparr> U := (U new_CubeState)[4 := ''Y''] \<rparr>"

text \<open>
  The solved cube with the token \<open>"GW"\<close> on \<open>U[7]\<close> and the empty token on \<open>F[1]\<close>: two
  unknown tokens whose concatenation is the key of a canonical edge.
\<close>

definition gluedUF :: CubeState where
  "gluedUF = new_CubeState\<lparr> U := (U new_CubeState)[7 := ''GW''], F := (F new_CubeState)[1 := []] \<rparr>"

text \<open>
  Two move tables for concrete runs of the search.  A quarter turn of the upper face and
  one of the lower face, as permutations of the corner and of the edge slots (neither
  changes an orientation); and the table in which the three turns of one face are that
  turn done once, twice and three times, and every other move leaves the cube as it is.
\<close>

definition turn :: "nat list \<Rightarrow> nat list \<Rightarrow> CubieCube \<Rightarrow> CubieCube" where
  "turn corners edges cc = cc\<lparr> cp := map ((!) (cp cc)) corners, ep := map ((!) (ep cc)) edges \<rparr>"

definition turnU :: "CubieCube \<Rightarrow> CubieCube" where
  "turnU = turn [3, 0, 1, 2, 4, 5, 6, 7] [3, 0, 1, 2, 4, 5, 6, 7, 8, 9, 10, 11]"

definition turnD :: "CubieCube \<Rightarrow> CubieCube" where
  "turnD = turn [0, 1, 2, 3, 5, 6, 7, 4] [0, 1, 2, 3, 5, 6, 7, 4, 8, 9, 10, 11]"

definition oneFace :: "char \<Rightarrow> (CubieCube \<Rightarrow> CubieCube) \<Rightarrow> CubieCube \<Rightarrow> string \<Rightarrow> CubieCube" where
  "oneFace face t cc m =
     (if m = [face] then t cc
      else if m = [face, CHR ''2''] then t (t cc)
      else if m = [face, CHR 0x27] then t (t (t cc))
      else cc)"

section \<open>Notions of the specification\<close>

text \<open>
  Two faces that have the same length and differ at most in the centre sticker, which is
  the one at index 4; two cube states whose faces do.
\<close>

definition sameOffCenter :: "string list \<Rightarrow> string list \<Rightarrow> bool" where
  "sameOffCenter a b \<longleftrightarrow>
     length a = length b \<and> list_all (\<lambda>i. i = 4 \<or> a ! i = b ! i) [0..<length a]"

definition differOnlyInCenters :: "CubeState \<Rightarrow> CubeState \<Rightarrow> bool" where
  "differOnlyInCenters cs cs' \<longleftrightarrow>
     sameOffCenter (U cs) (U cs') \<and> sameOffCenter (D cs) (D cs') \<and>
     sameOffCenter (F cs) (F cs') \<and> sameOffCenter (B cs) (B cs') \<and>
     sameOffCenter (R cs) (R cs') \<and> sameOffCenter (L cs) (L cs')"

text \<open>
  A character parses to a colour below \<open>m\<close>: \<open>Enum.Parse\<close> returns a value that is an
  index into an array of \<open>m\<close> counters.
\<close>

definition parses :: "(string \<Rightarrow> exn + int) \<Rightarrow> nat \<Rightarrow> char \<Rightarrow> bool" where
  "parses parse m ch \<longleftrightarrow> (case parse [ch] of Inl e \<Rightarrow> False | Inr v \<Rightarrow> 0 \<le> v \<and> nat v < m)"

text \<open>
  A cube string can be parsed into the six colours with exactly nine facelets of each:
  it has 54 characters (those after the 54th are never read), each of them parses to one
  of the six colours 0 to 5, and each colour is the value of nine of them.
\<close>

definition nineOfEach :: "(string \<Rightarrow> exn + int) \<Rightarrow> string \<Rightarrow> bool" where
  "nineOfEach parse s \<longleftrightarrow>
     54 \<le> length s \<and>
     list_all (\<lambda>ch. case parse [ch] of Inl e \<Rightarrow> False | Inr v \<Rightarrow> 0 \<le> v \<and> v < 6) (take 54 s) \<and>
     list_all (\<lambda>c. count_list (map (\<lambda>ch. parse [ch]) (take 54 s)) (Inr c) = 9)
       [0, 1, 2, 3, 4, 5]"

text \<open>
  A round of the rejection loop ends it: the corner permutation and the edge permutation
  that its two numbers encode have the same parity.
\<close>

definition agree :: "nat \<times> nat \<Rightarrow> bool" where
  "agree d \<longleftrightarrow>
     inversions (decodePerm (fst d) [0..<8]) mod 2 = inversions (decodePerm (snd d) [0..<12]) mod 2"

text \<open>
  The sticker on a facelet of a layout; the stickers on the two facelets of an edge
  position and on the three of a corner position, in the order of the tables; the names of
  the positions.
\<close>

definition facelet :: "CubeState \<Rightarrow> string \<Rightarrow> nat \<Rightarrow> string" where
  "facelet cs face idx = (case sticker cs face idx of Inl e \<Rightarrow> [] | Inr c \<Rightarrow> c)"

definition edgeTokens :: "CubeState \<Rightarrow> edgePosition \<Rightarrow> string list" where
  "edgeTokens cs p =
     (case p of (face1, idx1, face2, idx2, pos) \<Rightarrow> [facelet cs face1 idx1, facelet cs face2 idx2])"

definition cornerTokens :: "CubeState \<Rightarrow> cornerPosition \<Rightarrow> string list" where
  "cornerTokens cs p =
     (case p of (face1, idx1, face2, idx2, face3, idx3, pos) \<Rightarrow>
        [facelet cs face1 idx1, facelet cs face2 idx2, facelet cs face3 idx3])"

definition edgeName :: "edgePosition \<Rightarrow> string" where
  "edgeName p = (case p of (face1, idx1, face2, idx2, pos) \<Rightarrow> pos)"

definition cornerName :: "cornerPosition \<Rightarrow> string" where
  "cornerName p = (case p of (face1, idx1, face2, idx2, face3, idx3, pos) \<Rightarrow> pos)"

definition positionNames :: "string list" where
  "positionNames = map edgeName edgePositions @ map cornerName cornerPositions"

text \<open>
  A 54-sticker layout: nine stickers on each of the six faces, every sticker a colour
  token of one character, as the six known tokens are.
\<close>

definition layout :: "CubeState \<Rightarrow> bool" where
  "layout cs \<longleftrightarrow>
     list_all (\<lambda>face. length face = 9 \<and> list_all (\<lambda>c. length c = 1) face)
       [U cs, R cs, F cs, D cs, L cs, B cs]"

text \<open>On a layout every read of the tables succeeds and yields a token of one character.\<close>

definition goodRead :: "CubeState \<Rightarrow> string \<Rightarrow> nat \<Rightarrow> bool" where
  "goodRead cs face idx \<longleftrightarrow>
     sticker cs face idx = Inr (facelet cs face idx) \<and> length (facelet cs face idx) = 1"

text \<open>
  A canonical edge or corner is named by the letters of its colours, as in \<open>validEdges\<close>
  and \<open>validCorners\<close>: \<open>"GW"\<close> is the edge of green and white.  Its colours are a
  multiset of tokens, and it occurs at a position when the stickers there are these
  colours, in any order.  The occurrences of a canonical piece are the names of the
  positions where it occurs, in the order of the table.
\<close>

definition colours :: "string \<Rightarrow> string multiset" where
  "colours k = mset (map (\<lambda>c. [c]) k)"

definition edgeOccurrences :: "CubeState \<Rightarrow> string \<Rightarrow> string list" where
  "edgeOccurrences cs k =
     map edgeName (filter (\<lambda>p. mset (edgeTokens cs p) = colours k) edgePositions)"

definition cornerOccurrences :: "CubeState \<Rightarrow> string \<Rightarrow> string list" where
  "cornerOccurrences cs k =
     map cornerName (filter (\<lambda>p. mset (cornerTokens cs p) = colours k) cornerPositions)"

text \<open>
  Each of the 12 canonical edges occurs exactly once among the 12 edge positions, and each
  of the 8 canonical corners exactly once among the 8 corner positions.
\<close>

definition exactlyOnce :: "CubeState \<Rightarrow> bool" where
  "exactlyOnce cs \<longleftrightarrow>
     list_all (\<lambda>k. length (edgeOccurrences cs k) = 1) validEdges \<and>
     list_all (\<lambda>k. length (cornerOccurrences cs k) = 1) validCorners"

text \<open>
  The report on a layout, list by list: the canonical pieces that occur nowhere, by their
  colours; those that occur more than once, by their colours and the names of the
  positions; the positions whose stickers are the colours of no canonical piece, by the
  stickers and the name of the position.
\<close>

definition edgeLabel :: "string \<Rightarrow> string" where
  "edgeLabel k = [k ! 0] @ ''-'' @ [k ! 1]"

definition cornerLabel :: "string \<Rightarrow> string" where
  "cornerLabel k = [k ! 0] @ ''-'' @ [k ! 1] @ ''-'' @ [k ! 2]"

definition report :: "CubeState \<Rightarrow> ValidationResult" where
  "report cs =
     \<lparr> MissingEdges = map edgeLabel (filter (\<lambda>k. edgeOccurrences cs k = []) validEdges),
       DuplicateEdges =
         map (\<lambda>k. edgeLabel k @ '' at '' @ Join '', '' (edgeOccurrences cs k))
           (filter (\<lambda>k. length (edgeOccurrences cs k) > 1) validEdges),
       InvalidEdges =
         map (\<lambda>p. Join ''-'' (edgeTokens cs p) @ '' at '' @ edgeName p)
           (filter (\<lambda>p. \<not> list_ex (\<lambda>k. mset (edgeTokens cs p) = colours k) validEdges)
              edgePositions),
       MissingCorners = map cornerLabel (filter (\<lambda>k. cornerOccurrences cs k = []) validCorners),
       DuplicateCorners =
         map (\<lambda>k. cornerLabel k @ '' at '' @ Join '', '' (cornerOccurrences cs k))
           (filter (\<lambda>k. length (cornerOccurrences cs k) > 1) validCorners),
       InvalidCorners =
         map (\<lambda>p. Join ''-'' (cornerTokens cs p) @ '' at '' @ cornerName p)
           (filter (\<lambda>p. \<not> list_ex (\<lambda>k. mset (cornerTokens cs p) = colours k) validCorners)
              cornerPositions) \<rparr>"

text \<open>An item of a report mentions a name: the name is a part of its text.\<close>

fun contains :: "string \<Rightarrow> string \<Rightarrow> bool" where
  "contains [] name \<longleftrightarrow> name = []"
| "contains (c # cs) name \<longleftrightarrow> take (length name) (c # cs) = name \<or> contains cs name"

text \<open>
  The six recognized colour tokens are the keys of \<open>colorToFace\<close>.  The stickers of a
  layout are those of its faces in the order U, R, F, D, L, B; the stickers off the centres
  are those at the indices other than 4.  A layout holds an unknown token when one of its
  stickers is not a recognized colour.
\<close>

definition colourTokens :: "string list" where
  "colourTokens = map fst colorToFace"

definition stickers :: "CubeState \<Rightarrow> string list" where
  "stickers cs = U cs @ R cs @ F cs @ D cs @ L cs @ B cs"

definition offCenter :: "string list \<Rightarrow> string list" where
  "offCenter face = take 4 face @ drop 5 face"

definition offCenterStickers :: "CubeState \<Rightarrow> string list" where
  "offCenterStickers cs = concat (map offCenter [U cs, R cs, F cs, D cs, L cs, B cs])"

definition unknownToken :: "CubeState \<Rightarrow> bool" where
  "unknownToken cs \<longleftrightarrow> list_ex (\<lambda>c. c \<notin> set colourTokens) (stickers cs)"

text \<open>
  A cube state with nine stickers on each face; the centre sticker of a face and the six
  centre stickers of a cube state; a cube state in which one of the six colours does not
  occur nine times; the letter of the face that a recognized colour belongs to.
\<close>

definition ninePerFace :: "CubeState \<Rightarrow> bool" where
  "ninePerFace cs \<longleftrightarrow> list_all (\<lambda>face. length face = 9) [U cs, R cs, F cs, D cs, L cs, B cs]"

definition center :: "string list \<Rightarrow> string list" where
  "center face = take 1 (drop 4 face)"

definition centerStickers :: "CubeState \<Rightarrow> string list" where
  "centerStickers cs = concat (map center [U cs, R cs, F cs, D cs, L cs, B cs])"

definition miscounted :: "CubeState \<Rightarrow> bool" where
  "miscounted cs \<longleftrightarrow> \<not> list_all (\<lambda>c. count_list (stickers cs) c = 9) colourTokens"

definition faceLetter :: "string \<Rightarrow> char" where
  "faceLetter c = (case map_of colorToFace c of None \<Rightarrow> CHR ''?'' | Some ch \<Rightarrow> ch)"

text \<open>
  The response that \<open>Solve\<close> builds from the answer of the search engine: the message of
  the exception that left the engine, the text for an answer that starts with \<open>"Error"\<close>,
  and the moves of any other answer.
\<close>

definition engineResponse :: "int \<Rightarrow> exn + string \<Rightarrow> SolveResponse" where
  "engineResponse ms answer =
     (case answer of
        Inl ex \<Rightarrow> \<lparr> Solution = [], MoveCount = 0, SolveTimeMs = ms, Error = Some (Message ex) \<rparr>
      | Inr s \<Rightarrow>
          if StartsWith s ''Error''
          then \<lparr> Solution = [], MoveCount = 0, SolveTimeMs = ms,
                 Error = Some (GetErrorMessage s) \<rparr>
          else \<lparr> Solution = ParseSolution s, MoveCount = int (length (ParseSolution s)),
                 SolveTimeMs = ms, Error = None \<rparr>)"

text \<open>
  The ways in which \<open>Solve\<close> fails, each a kind of error of its own: validation reports
  issues; the search engine answers with an error code; an exception is thrown, by
  validation, by the conversion to the cube string or inside the engine.  \<open>failureOf\<close>
  tells which of them occurs, if any, and \<open>errorText\<close> is the text that stands for it.
  The engine has eight codes.
\<close>

datatype failure = ValidationIssue ValidationResult | EngineError string | Fault exn

definition failureOf :: "engine \<Rightarrow> CubeState \<Rightarrow> failure option" where
  "failureOf solution state =
     (case ValidateState state of
        Inl ex \<Rightarrow> Some (Fault ex)
      | Inr (Some v) \<Rightarrow> Some (ValidationIssue v)
      | Inr None \<Rightarrow>
     (case ToKociembaString state of
        Inl ex \<Rightarrow> Some (Fault ex)
      | Inr k \<Rightarrow>
          if k = solvedKociembaString then None
          else
     (case solution k 22 10000 False False of
        Inl ex \<Rightarrow> Some (Fault ex)
      | Inr s \<Rightarrow> if StartsWith s ''Error'' then Some (EngineError s) else None)))"

fun errorText :: "failure \<Rightarrow> string" where
  "errorText (ValidationIssue v) = ''Invalid cube: '' @ GetDetailedMessage v"
| "errorText (EngineError s) = GetErrorMessage s"
| "errorText (Fault ex) = Message ex"

definition engineCodes :: "string list" where
  "engineCodes =
     [''Error 1'', ''Error 2'', ''Error 3'', ''Error 4'',
      ''Error 5'', ''Error 6'', ''Error 7'', ''Error 8'']"

text \<open>
  A list of at most \<open>d\<close> moves, each of them a move token; the search nodes up to the depth
  budget \<open>d\<close>, in the order of the search; the response of \<open>Solve\<close> that carries an error.
\<close>

definition moveList :: "nat \<Rightarrow> string list \<Rightarrow> bool" where
  "moveList d moves \<longleftrightarrow> length moves \<le> d \<and> list_all (\<lambda>m. m \<in> set moveTokens) moves"

definition candidates :: "nat \<Rightarrow> string list list" where
  "candidates d = concat (map sequences [0..<Suc d])"

definition failed :: "int \<Rightarrow> string \<Rightarrow> SolveResponse" where
  "failed ms e = \<lparr> Solution = [], MoveCount = 0, SolveTimeMs = ms, Error = Some e \<rparr>"

section \<open>The solved state\<close>

lemma Array_Fill_replicate: "Array_Fill a v = replicate (length a) v"
  by (simp add: Array_Fill_def map_replicate_const)

lemma ValidateState_new_CubeState: "ValidateState new_CubeState = Inr None"
  by code_simp

lemma ToKociembaString_new_CubeState:
  "ToKociembaString new_CubeState = Inr solvedKociembaString"
  by code_simp

lemma IsSolved_new_CubeState: "IsSolved new_CubeState"
  by code_simp

lemma Reset_nine:
  assumes "length (U cs) = 9" and "length (D cs) = 9" and "length (F cs) = 9"
    and "length (B cs) = 9" and "length (R cs) = 9" and "length (L cs) = 9"
  shows "Reset cs = new_CubeState"
  using assms
  by (simp add: Reset_def new_CubeState_def Array_Fill_replicate new_string_array_def)

lemma IsSolved_Reset: "IsSolved (Reset cs)"
  by (simp add: IsSolved_def Reset_def Array_Fill_def list_all_iff)

text \<open>
  C10.  A freshly constructed cube state is the solved state: \<open>IsSolved\<close> holds of it,
  \<open>ValidateState\<close> returns \<open>null\<close> and \<open>ToKociembaString\<close> yields the canonical solved
  string.  After \<open>Reset\<close> \<open>IsSolved\<close> holds of every cube state, and a cube state
  with nine stickers on each face is then the freshly constructed state, so that the other
  two hold of it as well.  (\<open>Reset\<close> fills the arrays that are there and keeps their
  lengths.)
\<close>

theorem fresh_and_Reset_solved:
  "IsSolved new_CubeState \<and>
   ValidateState new_CubeState = Inr None \<and>
   ToKociembaString new_CubeState =
     Inr ''UUUUUUUUURRRRRRRRRFFFFFFFFFDDDDDDDDDLLLLLLLLLBBBBBBBBB'' \<and>
   IsSolved (Reset cs) \<and>
   (length (U cs) = 9 \<and> length (D cs) = 9 \<and> length (F cs) = 9 \<and>
    length (B cs) = 9 \<and> length (R cs) = 9 \<and> length (L cs) = 9 \<longrightarrow>
      Reset cs = new_CubeState \<and>
      ValidateState (Reset cs) = Inr None \<and>
      ToKociembaString (Reset cs) =
        Inr ''UUUUUUUUURRRRRRRRRFFFFFFFFFDDDDDDDDDLLLLLLLLLBBBBBBBBB'')"
proof -
  have k: "ToKociembaString new_CubeState =
      Inr ''UUUUUUUUURRRRRRRRRFFFFFFFFFDDDDDDDDDLLLLLLLLLBBBBBBBBB''"
    using ToKociembaString_new_CubeState by (simp add: solvedKociembaString_def)
  have "Reset cs = new_CubeState"
    if "length (U cs) = 9 \<and> length (D cs) = 9 \<and> length (F cs) = 9 \<and>
        length (B cs) = 9 \<and> length (R cs) = 9 \<and> length (L cs) = 9"
    using that by (intro Reset_nine) simp_all
  then show ?thesis
    using k IsSolved_new_CubeState ValidateState_new_CubeState IsSolved_Reset [of cs]
    by simp
qed

theorem fresh_and_Reset_solved_witness:
  "length (U turnedU) = 9 \<and> length (D turnedU) = 9 \<and> length (F turnedU) = 9 \<and>
   length (B turnedU) = 9 \<and> length (R turnedU) = 9 \<and> length (L turnedU) = 9 \<and>
   \<not> IsSolved turnedU \<and>
   IsSolved (Reset turnedU) \<and>
   ValidateState (Reset turnedU) = Inr None \<and>
   ToKociembaString (Reset turnedU) =
     Inr ''UUUUUUUUURRRRRRRRRFFFFFFFFFDDDDDDDDDLLLLLLLLLBBBBBBBBB''"
proof -
  have len: "length (U turnedU) = 9 \<and> length (D turnedU) = 9 \<and> length (F turnedU) = 9 \<and>
    length (B turnedU) = 9 \<and> length (R turnedU) = 9 \<and> length (L turnedU) = 9"
    by (simp add: turnedU_def)
  have "\<not> IsSolved turnedU"
    by (simp add: IsSolved_def turnedU_def)
  then show ?thesis
    using len fresh_and_Reset_solved [of turnedU] by simp
qed

section \<open>Solve\<close>

text \<open>
  C4.  On the canonical solved layout \<open>Solve\<close> returns an empty move list with move
  count 0 and no error, whatever the search engine is: the engine is not consulted.
\<close>

theorem Solve_solved_layout:
  "ToKociembaString GetSolvedState =
     Inr ''UUUUUUUUURRRRRRRRRFFFFFFFFFDDDDDDDDDLLLLLLLLLBBBBBBBBB'' \<and>
   Solve solution ms GetSolvedState =
     Inr \<lparr> Solution = [], MoveCount = 0, SolveTimeMs = ms, Error = None \<rparr>"
  using ToKociembaString_new_CubeState
  by (simp add: Solve_def Solve_try_def GetSolvedState_def ValidateState_new_CubeState
      new_SolveResponse_def solvedKociembaString_def)

text \<open>
  C3.  \<open>Solve\<close> never lets an exception reach its caller.  On a layout for which
  \<open>ValidateState\<close> reports an issue it returns the validation error, with an empty move
  list, whatever the search engine is and whether \<open>ToKociembaString\<close> would throw or
  not: neither of them is reached.
\<close>

theorem Solve_validation_short_circuit:
  "(\<exists>r. Solve solution ms state = Inr r) \<and>
   (ValidateState state = Inr (Some v) \<longrightarrow>
      (\<forall>solution'. Solve solution' ms state =
         Inr \<lparr> Solution = [], MoveCount = 0, SolveTimeMs = ms,
               Error = Some (''Invalid cube: '' @ GetDetailedMessage v) \<rparr>))"
proof
  show "\<exists>r. Solve solution ms state = Inr r"
    by (simp add: Solve_def Let_def split: sum.split)
next
  show "ValidateState state = Inr (Some v) \<longrightarrow>
      (\<forall>solution'. Solve solution' ms state =
         Inr \<lparr> Solution = [], MoveCount = 0, SolveTimeMs = ms,
               Error = Some (''Invalid cube: '' @ GetDetailedMessage v) \<rparr>)"
    by (simp add: Solve_def Solve_try_def new_SolveResponse_def)
qed

lemma ValidateState_unknownUF:
  "ValidateState unknownUF =
     Inr (Some \<lparr> MissingEdges = [''G-W''], DuplicateEdges = [],
                 InvalidEdges = [''X-G at UF''], MissingCorners = [],
                 DuplicateCorners = [], InvalidCorners = [] \<rparr>)"
  by code_simp

lemma ToKociembaString_unknownUF:
  "ToKociembaString unknownUF = Inl (KeyNotFoundException ''X'')"
  by code_simp

theorem Solve_validation_short_circuit_witness:
  "ValidateState unknownUF =
     Inr (Some \<lparr> MissingEdges = [''G-W''], DuplicateEdges = [],
                 InvalidEdges = [''X-G at UF''], MissingCorners = [],
                 DuplicateCorners = [], InvalidCorners = [] \<rparr>) \<and>
   ToKociembaString unknownUF = Inl (KeyNotFoundException ''X'') \<and>
   Solve (\<lambda>k maxDepth timeOut useSeparator buildTables. Inl (EngineException ''fault'')) 3
       unknownUF =
     Inr \<lparr> Solution = [], MoveCount = 0, SolveTimeMs = 3,
           Error = Some ''Invalid cube: Invalid edges: X-G at UF. Missing edges: G-W'' \<rparr>"
proof -
  let ?v = "\<lparr> MissingEdges = [''G-W''], DuplicateEdges = [],
               InvalidEdges = [''X-G at UF''], MissingCorners = [],
               DuplicateCorners = [], InvalidCorners = [] \<rparr>"
  have msg: "GetDetailedMessage ?v = ''Invalid edges: X-G at UF. Missing edges: G-W''"
    by (simp add: GetDetailedMessage_def)
  show ?thesis
    using Solve_validation_short_circuit [of _ 3 unknownUF ?v]
      ValidateState_unknownUF ToKociembaString_unknownUF msg
    by simp
qed

lemma ValidateState_turnedU: "ValidateState turnedU = Inr None"
  by code_simp

lemma ToKociembaString_turnedU:
  "ToKociembaString turnedU =
     Inr ''UUUUUUUUUBBBRRRRRRRRRFFFFFFDDDDDDDDDFFFLLLLLLLLLBBBBBB''"
  by code_simp

section \<open>ValidateState and the centre stickers\<close>

lemma get_sameOffCenter: "sameOffCenter a b \<Longrightarrow> idx \<noteq> 4 \<Longrightarrow> get a idx = get b idx"
  by (auto simp add: sameOffCenter_def get_def list_all_iff)

lemma sticker_off_center:
  "differOnlyInCenters cs cs' \<Longrightarrow> idx \<noteq> 4 \<Longrightarrow> sticker cs face idx = sticker cs' face idx"
  by (simp add: differOnlyInCenters_def sticker_def GetFace_def get_sameOffCenter)

lemma countEdges_cong:
  "\<forall>(face1, idx1, face2, idx2, pos) \<in> set ps.
      sticker cs face1 idx1 = sticker cs' face1 idx1 \<and>
      sticker cs face2 idx2 = sticker cs' face2 idx2 \<Longrightarrow>
   countEdges cs ps acc = countEdges cs' ps acc"
proof (induction ps arbitrary: acc)
  case Nil
  show ?case by (cases acc) simp
next
  case (Cons p ps)
  obtain face1 idx1 face2 idx2 pos where p: "p = (face1, idx1, face2, idx2, pos)"
    by (cases p)
  obtain edgeCounts invalid where acc: "acc = (edgeCounts, invalid)"
    by (cases acc)
  from Cons.prems p have here:
    "sticker cs face1 idx1 = sticker cs' face1 idx1" "sticker cs face2 idx2 = sticker cs' face2 idx2"
    by simp_all
  from Cons.prems have rest: "\<forall>(face1, idx1, face2, idx2, pos) \<in> set ps.
      sticker cs face1 idx1 = sticker cs' face1 idx1 \<and>
      sticker cs face2 idx2 = sticker cs' face2 idx2"
    by simp
  show ?case
    unfolding p acc
    by (simp add: here Cons.IH [OF rest] Let_def split: sum.split)
qed

lemma countCorners_cong:
  "\<forall>(face1, idx1, face2, idx2, face3, idx3, pos) \<in> set ps.
      sticker cs face1 idx1 = sticker cs' face1 idx1 \<and>
      sticker cs face2 idx2 = sticker cs' face2 idx2 \<and>
      sticker cs face3 idx3 = sticker cs' face3 idx3 \<Longrightarrow>
   countCorners cs ps acc = countCorners cs' ps acc"
proof (induction ps arbitrary: acc)
  case Nil
  show ?case by (cases acc) simp
next
  case (Cons p ps)
  obtain face1 idx1 face2 idx2 face3 idx3 pos
    where p: "p = (face1, idx1, face2, idx2, face3, idx3, pos)"
    by (cases p)
  obtain cornerCounts invalid where acc: "acc = (cornerCounts, invalid)"
    by (cases acc)
  from Cons.prems p have here:
    "sticker cs face1 idx1 = sticker cs' face1 idx1" "sticker cs face2 idx2 = sticker cs' face2 idx2"
    "sticker cs face3 idx3 = sticker cs' face3 idx3"
    by simp_all
  from Cons.prems have rest: "\<forall>(face1, idx1, face2, idx2, face3, idx3, pos) \<in> set ps.
      sticker cs face1 idx1 = sticker cs' face1 idx1 \<and>
      sticker cs face2 idx2 = sticker cs' face2 idx2 \<and>
      sticker cs face3 idx3 = sticker cs' face3 idx3"
    by simp
  show ?case
    unfolding p acc
    by (simp add: here Cons.IH [OF rest] Let_def split: sum.split)
qed

text \<open>
  C9.  \<open>ValidateState\<close> never reads a centre sticker: on two cube states that differ
  only in their centre stickers it returns the same result (or throws the same exception).
\<close>

theorem ValidateState_ignores_centers:
  assumes "differOnlyInCenters cs cs'"
  shows "ValidateState cs = ValidateState cs'"
proof -
  have e: "countEdges cs edgePositions acc = countEdges cs' edgePositions acc" for acc
    by (rule countEdges_cong) (simp add: edgePositions_def sticker_off_center [OF assms])
  have c: "countCorners cs cornerPositions acc = countCorners cs' cornerPositions acc" for acc
    by (rule countCorners_cong) (simp add: cornerPositions_def sticker_off_center [OF assms])
  show ?thesis
    unfolding ValidateState_def e c by (rule refl)
qed

lemma differOnlyInCenters_wrongCenters: "differOnlyInCenters new_CubeState wrongCenters"
  by code_simp

theorem ValidateState_ignores_centers_witness:
  "differOnlyInCenters new_CubeState wrongCenters \<and> ValidateState wrongCenters = Inr None"
  using ValidateState_ignores_centers [OF differOnlyInCenters_wrongCenters]
    differOnlyInCenters_wrongCenters ValidateState_new_CubeState
  by simp

section \<open>verify\<close>

lemma CubieCube_verify_range: "CubieCube_verify cc \<in> {0, - 2, - 3, - 4, - 5, - 6}"
  by (simp add: CubieCube_verify_def)

lemma countLoop_short:
  "length s < i + n \<Longrightarrow> 0 < n \<Longrightarrow> \<exists>e. countLoop parse s i n cnt = Inl e"
proof (induction n arbitrary: i cnt)
  case 0
  then show ?case by simp
next
  case (Suc n)
  show ?case
  proof (cases "i < length s")
    case False
    then show ?thesis by (simp add: get_def)
  next
    case True
    with Suc.prems have "length s < Suc i + n" "0 < n" by auto
    from Suc.IH [OF this] show ?thesis
      by (auto simp add: get_def True split: sum.split)
  qed
qed



lemma countLoop_step_ok:
  assumes "i < length s" and "parse [s ! i] = Inr v" and "0 \<le> v" and "nat v < length cnt"
  shows "countLoop parse s i (Suc n) cnt =
           countLoop parse s (Suc i) n (cnt[nat v := cnt ! nat v + 1])"
  using assms by (simp add: get_def)

lemma countLoop_step_bad:
  assumes "i < length s" and "\<not> parses parse (length cnt) (s ! i)"
  shows "\<exists>e. countLoop parse s i (Suc n) cnt = Inl e"
  using assms by (auto simp add: get_def parses_def split: sum.splits)

lemma take_drop_step:
  "i < length s \<Longrightarrow> take (Suc n) (drop i s) = s ! i # take n (drop (Suc i) s)"
  by (simp add: Cons_nth_drop_Suc [symmetric])

lemma countLoop_fails:
  "i + n \<le> length s \<Longrightarrow> \<not> list_all (parses parse (length cnt)) (take n (drop i s)) \<Longrightarrow>
   \<exists>e. countLoop parse s i n cnt = Inl e"
proof (induction n arbitrary: i cnt)
  case 0
  then show ?case by simp
next
  case (Suc n)
  from Suc.prems have i: "i < length s" and rest: "Suc i + n \<le> length s" by auto
  show ?case
  proof (cases "parses parse (length cnt) (s ! i)")
    case False
    with i show ?thesis by (rule countLoop_step_bad)
  next
    case True
    then obtain v where v: "parse [s ! i] = Inr v" "0 \<le> v" "nat v < length cnt"
      by (auto simp add: parses_def split: sum.splits)
    from Suc.prems(2) True
    have "\<not> list_all (parses parse (length (cnt[nat v := cnt ! nat v + 1]))) (take n (drop (Suc i) s))"
      by (simp add: take_drop_step [OF i])
    from Suc.IH [OF rest this] show ?thesis
      by (simp only: countLoop_step_ok [where parse = parse and s = s, OF i v])
  qed
qed

lemma countLoop_counts:
  "i + n \<le> length s \<Longrightarrow> list_all (parses parse (length cnt)) (take n (drop i s)) \<Longrightarrow>
   countLoop parse s i n cnt =
     Inr (map (\<lambda>c. cnt ! c +
                  int (count_list (map (\<lambda>ch. parse [ch]) (take n (drop i s))) (Inr (int c))))
            [0..<length cnt])"
proof (induction n arbitrary: i cnt)
  case 0
  show ?case by (simp add: map_nth)
next
  case (Suc n)
  from Suc.prems have i: "i < length s" and rest: "Suc i + n \<le> length s" by auto
  from Suc.prems(2) have here: "parses parse (length cnt) (s ! i)"
    and there: "list_all (parses parse (length (cnt[nat v := cnt ! nat v + 1]))) (take n (drop (Suc i) s))" for v
    by (simp_all add: take_drop_step [OF i])
  from here obtain v where v: "parse [s ! i] = Inr v" "0 \<le> v" "nat v < length cnt"
    by (auto simp add: parses_def split: sum.splits)
  have upd: "map (\<lambda>c. cnt[nat v := cnt ! nat v + 1] ! c + int (count_list xs (Inr (int c)))) [0..<length cnt]
        = map (\<lambda>c. cnt ! c + int (count_list (Inr v # xs) (Inr (int c)))) [0..<length cnt]" for xs :: "(exn + int) list"
    using v by (auto simp add: nth_list_update)
  show ?case
    using Suc.IH [OF rest there, of v] upd
    by (simp add: countLoop_step_ok [where parse = parse and s = s, OF i v] take_drop_step [OF i] v del: countLoop.simps)
qed

lemma nineOfEach_alt:
  "nineOfEach parse s \<longleftrightarrow>
     54 \<le> length s \<and> list_all (parses parse 6) (take 54 s) \<and>
     (\<forall>c<6. count_list (map (\<lambda>ch. parse [ch]) (take 54 s)) (Inr (int c)) = 9)"
proof -
  have a: "(\<lambda>ch. case parse [ch] of Inl e \<Rightarrow> False | Inr v \<Rightarrow> 0 \<le> v \<and> v < 6) = parses parse 6"
    by (auto simp add: parses_def fun_eq_iff split: sum.splits)
  have b: "(\<forall>c<6. P (int c)) \<longleftrightarrow> P 0 \<and> P 1 \<and> P 2 \<and> P 3 \<and> P 4 \<and> P 5" for P :: "int \<Rightarrow> bool"
  proof -
    have "{..<6::nat} = {0, 1, 2, 3, 4, 5}" by auto
    then have "(\<forall>c<6::nat. P (int c)) \<longleftrightarrow> (\<forall>c\<in>{0, 1, 2, 3, 4, 5::nat}. P (int c))"
      by (metis lessThan_iff)
    then show ?thesis by simp
  qed
  show ?thesis
    unfolding nineOfEach_def a
    using b [of "\<lambda>v. count_list (map (\<lambda>ch. parse [ch]) (take 54 s)) (Inr v) = 9"]
    by simp
qed

text \<open>
  C7.  \<open>verify\<close> returns one of the seven codes 0, -1, -2, -3, -4, -5, -6, and it returns
  -1 exactly when the cube string cannot be parsed into the six colours with nine
  facelets of each.  This holds for every parser of colours and every facelet-to-cubie
  converter.
\<close>

theorem verify_outcomes:
  "verify parse toCubieCube s \<in> {0, - 1, - 2, - 3, - 4, - 5, - 6} \<and>
   (verify parse toCubieCube s = - 1 \<longleftrightarrow> \<not> nineOfEach parse s)"
proof -
  have range: "CubieCube_verify (toCubieCube s) \<in> {0, - 2, - 3, - 4, - 5, - 6}"
    by (rule CubieCube_verify_range)
  consider (short) "length s < 54"
    | (bad) "54 \<le> length s" "\<not> list_all (parses parse 6) (take 54 s)"
    | (good) "54 \<le> length s" "list_all (parses parse 6) (take 54 s)"
    by linarith
  then show ?thesis
  proof cases
    case short
    then have "\<exists>e. countLoop parse s 0 54 (replicate 6 0) = Inl e"
      by (intro countLoop_short) simp_all
    then have "verify parse toCubieCube s = - 1"
      by (auto simp add: verify_def)
    with short show ?thesis
      by (simp add: nineOfEach_alt)
  next
    case bad
    then have "\<exists>e. countLoop parse s 0 54 (replicate 6 0) = Inl e"
      by (intro countLoop_fails) simp_all
    then have "verify parse toCubieCube s = - 1"
      by (auto simp add: verify_def)
    with bad show ?thesis
      by (simp add: nineOfEach_alt)
  next
    case good
    have cl: "countLoop parse s 0 54 (replicate 6 0) =
      Inr (map (\<lambda>c. int (count_list (map (\<lambda>ch. parse [ch]) (take 54 s)) (Inr (int c)))) [0..<6])"
      using countLoop_counts [of 0 54 s parse "replicate 6 0"] good by simp
    have all9: "list_all (\<lambda>i. map (\<lambda>c. int (count_list (map (\<lambda>ch. parse [ch]) (take 54 s)) (Inr (int c)))) [0..<6] ! i = 9) [0..<6]
      \<longleftrightarrow> (\<forall>c<6. count_list (map (\<lambda>ch. parse [ch]) (take 54 s)) (Inr (int c)) = 9)"
      by (auto simp add: list_all_iff)
    show ?thesis
    proof (cases "\<forall>c<6. count_list (map (\<lambda>ch. parse [ch]) (take 54 s)) (Inr (int c)) = 9")
      case True
      then have "verify parse toCubieCube s = CubieCube_verify (toCubieCube s)"
        unfolding verify_def cl using all9 by simp
      with range good True show ?thesis
        by (auto simp add: nineOfEach_alt)
    next
      case False
      then have "verify parse toCubieCube s = - 1"
        unfolding verify_def cl using all9 by simp
      with good False show ?thesis
        by (simp add: nineOfEach_alt)
    qed
  qed
qed

lemma nineOfEach_solved: "nineOfEach Enum_Parse_CubeColor solvedKociembaString"
  by code_simp

theorem verify_outcomes_witness:
  "nineOfEach Enum_Parse_CubeColor solvedKociembaString \<and>
   verify Enum_Parse_CubeColor (\<lambda>s. new_CubieCube) solvedKociembaString \<noteq> - 1 \<and>
   verify Enum_Parse_CubeColor (\<lambda>s. new_CubieCube) solvedKociembaString
     \<in> {0, - 1, - 2, - 3, - 4, - 5, - 6}"
  using verify_outcomes [of Enum_Parse_CubeColor "\<lambda>s. new_CubieCube" solvedKociembaString]
    nineOfEach_solved
  by blast

section \<open>randomCube\<close>

lemma mset_decodePerm: "mset (decodePerm idx ps) = mset ps"
proof (induction ps arbitrary: idx)
  case Nil
  show ?case by simp
next
  case (Cons p ps)
  have "mset (take k xs @ [p] @ drop k xs) = add_mset p (mset xs)" for k and xs :: "nat list"
    by (metis append_take_drop_id mset.simps(2) mset_append union_mset_add_mset_right append_Cons append_Nil add_mset_add_single union_commute)
  then show ?case
    by (simp add: Let_def Cons.IH del: append_Cons)
qed

lemma count_list_decodePerm: "count_list (decodePerm idx ps) x = count_list ps x"
  by (metis mset_decodePerm count_mset)

lemma count_list_upt: "count_list [0..<n] x = (if x < n then 1 else 0)"
  by (induction n) auto

lemma xor_parity: "(a XOR b) = 0 \<longleftrightarrow> a = b" for a b :: nat
proof
  assume "a XOR b = 0"
  then have "bit (a XOR b) n = bit (0::nat) n" for n
    by simp
  then have "bit a n = bit b n" for n
    by (simp add: bit_xor_iff)
  then show "a = b"
    by (rule bit_eqI)
qed simp

lemma sum_fix2: "(s + (2 - s mod 2) mod 2) mod 2 = 0" for s :: nat
proof -
  have "(s + (2 - s mod 2) mod 2) mod 2 = (s mod 2 + (2 - s mod 2) mod 2) mod 2"
    by (simp add: mod_add_left_eq)
  moreover have "s mod 2 < 2"
    by simp
  then consider "s mod 2 = 0" | "s mod 2 = 1"
    by linarith
  then have "(s mod 2 + (2 - s mod 2) mod 2) mod 2 = 0"
    by cases simp_all
  ultimately show ?thesis
    by simp
qed

lemma sum_fix3: "(s + (3 - s mod 3) mod 3) mod 3 = 0" for s :: nat
proof -
  have "(s + (3 - s mod 3) mod 3) mod 3 = (s mod 3 + (3 - s mod 3) mod 3) mod 3"
    by (simp add: mod_add_left_eq)
  moreover have "s mod 3 < 3"
    by simp
  then consider "s mod 3 = 0" | "s mod 3 = 1" | "s mod 3 = 2"
    by linarith
  then have "(s mod 3 + (3 - s mod 3) mod 3) mod 3 = 0"
    by cases simp_all
  ultimately show ?thesis
    by simp
qed

lemma samplePermutations_Some:
  "samplePermutations cc draws = Some cc' \<Longrightarrow>
   \<exists>a b. (a, b) \<in> set draws \<and> cp cc' = decodePerm a [0..<8] \<and> ep cc' = decodePerm b [0..<12] \<and>
     co cc' = co cc \<and> eo cc' = eo cc \<and> edgeParity cc' = cornerParity cc'"
proof (induction draws arbitrary: cc)
  case Nil
  then show ?case by simp
next
  case (Cons d draws)
  obtain a b where d: "d = (a, b)" by (cases d)
  let ?cc = "setURtoBR b (setURFtoDLB a cc)"
  have frame: "cp ?cc = decodePerm a [0..<8]" "ep ?cc = decodePerm b [0..<12]"
    "co ?cc = co cc" "eo ?cc = eo cc"
    by (simp_all add: setURtoBR_def setURFtoDLB_def)
  show ?case
  proof (cases "(edgeParity ?cc XOR cornerParity ?cc) \<noteq> 0")
    case True
    with Cons.prems d have "samplePermutations ?cc draws = Some cc'"
      by (simp add: Let_def)
    from Cons.IH [OF this] frame show ?thesis
      by auto
  next
    case False
    with Cons.prems d have "cc' = ?cc"
      by (simp add: Let_def)
    with False frame d show ?thesis
      by (auto simp add: xor_parity)
  qed
qed

lemma samplePermutations_returns:
  "list_ex agree draws \<Longrightarrow> \<exists>cc'. samplePermutations cc draws = Some cc'"
proof (induction draws arbitrary: cc)
  case Nil
  then show ?case by simp
next
  case (Cons d draws)
  obtain a b where d: "d = (a, b)" by (cases d)
  let ?cc = "setURtoBR b (setURFtoDLB a cc)"
  show ?case
  proof (cases "(edgeParity ?cc XOR cornerParity ?cc) \<noteq> 0")
    case False
    with d show ?thesis by (simp add: Let_def)
  next
    case True
    then have "\<not> agree d"
      by (auto simp add: d agree_def xor_parity edgeParity_def cornerParity_def setURtoBR_def setURFtoDLB_def)
    with Cons.prems have "list_ex agree draws" by simp
    from Cons.IH [OF this, of ?cc] True d show ?thesis
      by (simp add: Let_def)
  qed
qed


lemma legal_cube:
  assumes "cp cc = decodePerm a [0..<8]" and "ep cc = decodePerm b [0..<12]"
    and "co cc = co (setTwist twist c0)" and "eo cc = eo (setFlip flip c1)"
    and "edgeParity cc = cornerParity cc"
  shows "CubieCube_verify cc = 0"
proof -
  have e: "list_all (\<lambda>e. count_list (ep cc) e = 1) [0..<12]"
    by (simp add: assms(2) count_list_decodePerm count_list_upt list_all_iff)
  have c: "list_all (\<lambda>c. count_list (cp cc) c = 1) [0..<8]"
    by (simp add: assms(1) count_list_decodePerm count_list_upt list_all_iff)
  define fs where "fs = digits 2 11 flip"
  have "eo cc = fs @ [(2 - sum_list fs mod 2) mod 2]"
    unfolding assms(4) setFlip_def Let_def fs_def by simp
  then have f: "sum_list (eo cc) mod 2 = 0"
    by (simp only: sum_list_append sum_list.Cons sum_list.Nil add_0_right sum_fix2)
  define ts where "ts = digits 3 7 twist"
  have "co cc = ts @ [(3 - sum_list ts mod 3) mod 3]"
    unfolding assms(3) setTwist_def Let_def ts_def by simp
  then have t: "sum_list (co cc) mod 3 = 0"
    by (simp only: sum_list_append sum_list.Cons sum_list.Nil add_0_right sum_fix3)
  show ?thesis
    unfolding CubieCube_verify_def using e c f t assms(5) by simp
qed

text \<open>
  C8.  Every string that \<open>randomCube\<close> returns is the string of a cube whose corner
  permutation and edge permutation have the same parity, and that cube is legal:
  \<open>CubieCube.verify\<close> yields 0 on it.  \<open>randomCube\<close> does return when one of the rounds
  draws two permutations of the same parity.
\<close>

theorem randomCube_legal:
  "(randomCube to_fc_String flip twist draws = Some s \<longrightarrow>
      (\<exists>cc. s = to_fc_String cc \<and> cornerParity cc = edgeParity cc \<and> CubieCube_verify cc = 0)) \<and>
   (list_ex agree draws \<longrightarrow> (\<exists>s'. randomCube to_fc_String flip twist draws = Some s'))"
proof (intro conjI impI)
  assume "randomCube to_fc_String flip twist draws = Some s"
  then obtain cc where cc: "samplePermutations (setTwist twist (setFlip flip new_CubieCube)) draws = Some cc"
    and s: "s = to_fc_String cc"
    by (auto simp add: randomCube_def split: option.splits)
  from samplePermutations_Some [OF cc] obtain a b where
    ab: "cp cc = decodePerm a [0..<8]" "ep cc = decodePerm b [0..<12]"
      "co cc = co (setTwist twist (setFlip flip new_CubieCube))"
      "eo cc = eo (setTwist twist (setFlip flip new_CubieCube))"
      "edgeParity cc = cornerParity cc"
    by auto
  have "eo (setTwist twist (setFlip flip new_CubieCube)) = eo (setFlip flip new_CubieCube)"
    by (simp add: setTwist_def Let_def)
  with ab have "CubieCube_verify cc = 0"
    by (intro legal_cube [of cc a b twist _ flip]) simp_all
  with s ab(5) show "\<exists>cc. s = to_fc_String cc \<and> cornerParity cc = edgeParity cc \<and> CubieCube_verify cc = 0"
    by auto
next
  assume "list_ex agree draws"
  from samplePermutations_returns [OF this]
  obtain cc' where "samplePermutations (setTwist twist (setFlip flip new_CubieCube)) draws = Some cc'"
    by blast
  then show "\<exists>s'. randomCube to_fc_String flip twist draws = Some s'"
    by (simp add: randomCube_def)
qed


lemma agree_second_round: "\<not> agree (1, 0) \<and> list_ex agree [(1, 0), (0, 0)]"
  by code_simp

lemma randomCube_two_rounds:
  "randomCube (\<lambda>cc. if cc = new_CubieCube then solvedKociembaString else []) 0 0
     [(1, 0), (0, 0)] = Some solvedKociembaString"
  by code_simp

theorem randomCube_legal_witness:
  "\<not> agree (1, 0) \<and> list_ex agree [(1, 0), (0, 0)] \<and>
   randomCube (\<lambda>cc. if cc = new_CubieCube then solvedKociembaString else []) 0 0
     [(1, 0), (0, 0)] = Some solvedKociembaString \<and>
   (\<exists>cc. solvedKociembaString = (if cc = new_CubieCube then solvedKociembaString else []) \<and>
      cornerParity cc = edgeParity cc \<and> CubieCube_verify cc = 0)"
  using randomCube_legal [of "\<lambda>cc. if cc = new_CubieCube then solvedKociembaString else []"
      0 0 "[(1, 0), (0, 0)]" solvedKociembaString]
    agree_second_round randomCube_two_rounds
  by blast

section \<open>The report of ValidateState\<close>

lemma addPosition_apply:
  "addPosition d k' n k =
     (if k = k' then Some ((case d k of None \<Rightarrow> [] | Some l \<Rightarrow> l) @ [n]) else d k)"
  by (simp add: addPosition_def split: option.split)

lemma foldl_addPosition:
  "foldl (\<lambda>d p. addPosition d (key p) (name p)) d ps k =
     (if filter (\<lambda>p. key p = k) ps = [] then d k
      else Some ((case d k of None \<Rightarrow> [] | Some l \<Rightarrow> l) @ map name (filter (\<lambda>p. key p = k) ps)))"
proof (induction ps arbitrary: d)
  case Nil
  show ?case by simp
next
  case (Cons p ps)
  let ?f = "\<lambda>d p. addPosition d (key p) (name p)"
  let ?d = "addPosition d (key p) (name p)"
  have "foldl ?f d (p # ps) k = foldl ?f ?d ps k"
    by simp
  also have "\<dots> = (if filter (\<lambda>p. key p = k) ps = [] then ?d k
      else Some ((case ?d k of None \<Rightarrow> [] | Some l \<Rightarrow> l) @ map name (filter (\<lambda>p. key p = k) ps)))"
    by (rule Cons.IH)
  also have "\<dots> = (if filter (\<lambda>p. key p = k) (p # ps) = [] then d k
      else Some ((case d k of None \<Rightarrow> [] | Some l \<Rightarrow> l) @ map name (filter (\<lambda>p. key p = k) (p # ps))))"
    by (simp add: addPosition_apply)
  finally show ?case .
qed

lemma countEdges_pure:
  assumes "\<forall>(face1, idx1, face2, idx2, pos) \<in> set ps.
      sticker cs face1 idx1 = Inr (facelet cs face1 idx1) \<and>
      sticker cs face2 idx2 = Inr (facelet cs face2 idx2)"
  shows "countEdges cs ps (d, iv) =
     Inr (foldl (\<lambda>d p. addPosition d (sortedConcat (edgeTokens cs p)) (edgeName p)) d ps,
          iv @ map (\<lambda>p. Join ''-'' (edgeTokens cs p) @ '' at '' @ edgeName p)
                  (filter (\<lambda>p. sortedConcat (edgeTokens cs p) \<notin> set validEdges) ps))"
  using assms
proof (induction ps arbitrary: d iv)
  case Nil
  show ?case by simp
next
  case (Cons p ps)
  obtain face1 idx1 face2 idx2 pos where p: "p = (face1, idx1, face2, idx2, pos)"
    by (cases p)
  from Cons.prems p have here:
    "sticker cs face1 idx1 = Inr (facelet cs face1 idx1)"
    "sticker cs face2 idx2 = Inr (facelet cs face2 idx2)"
    by simp_all
  from Cons.prems have rest: "\<forall>(face1, idx1, face2, idx2, pos) \<in> set ps.
      sticker cs face1 idx1 = Inr (facelet cs face1 idx1) \<and>
      sticker cs face2 idx2 = Inr (facelet cs face2 idx2)"
    by simp
  show ?case
    unfolding p
    by (simp add: here Cons.IH [OF rest] Let_def edgeTokens_def edgeName_def)
qed

lemma countCorners_pure:
  assumes "\<forall>(face1, idx1, face2, idx2, face3, idx3, pos) \<in> set ps.
      sticker cs face1 idx1 = Inr (facelet cs face1 idx1) \<and>
      sticker cs face2 idx2 = Inr (facelet cs face2 idx2) \<and>
      sticker cs face3 idx3 = Inr (facelet cs face3 idx3)"
  shows "countCorners cs ps (d, iv) =
     Inr (foldl (\<lambda>d p. addPosition d (sortedConcat (cornerTokens cs p)) (cornerName p)) d ps,
          iv @ map (\<lambda>p. Join ''-'' (cornerTokens cs p) @ '' at '' @ cornerName p)
                  (filter (\<lambda>p. sortedConcat (cornerTokens cs p) \<notin> set validCorners) ps))"
  using assms
proof (induction ps arbitrary: d iv)
  case Nil
  show ?case by simp
next
  case (Cons p ps)
  obtain face1 idx1 face2 idx2 face3 idx3 pos
    where p: "p = (face1, idx1, face2, idx2, face3, idx3, pos)"
    by (cases p)
  from Cons.prems p have here:
    "sticker cs face1 idx1 = Inr (facelet cs face1 idx1)"
    "sticker cs face2 idx2 = Inr (facelet cs face2 idx2)"
    "sticker cs face3 idx3 = Inr (facelet cs face3 idx3)"
    by simp_all
  from Cons.prems have rest: "\<forall>(face1, idx1, face2, idx2, face3, idx3, pos) \<in> set ps.
      sticker cs face1 idx1 = Inr (facelet cs face1 idx1) \<and>
      sticker cs face2 idx2 = Inr (facelet cs face2 idx2) \<and>
      sticker cs face3 idx3 = Inr (facelet cs face3 idx3)"
    by simp
  show ?case
    unfolding p
    by (simp add: here Cons.IH [OF rest] Let_def cornerTokens_def cornerName_def)
qed

lemma checkEdges_pure:
  "checkEdges d vs (m, du) =
     (m @ map edgeLabel (filter (\<lambda>k. case d k of None \<Rightarrow> True | Some l \<Rightarrow> length l = 0) vs),
      du @ map (\<lambda>k. edgeLabel k @ '' at '' @ Join '', '' (case d k of None \<Rightarrow> [] | Some l \<Rightarrow> l))
             (filter (\<lambda>k. case d k of None \<Rightarrow> False | Some l \<Rightarrow> length l > 1) vs))"
proof (induction vs arbitrary: m du)
  case Nil
  show ?case by simp
next
  case (Cons k vs)
  show ?case
    by (cases "d k") (simp_all add: Cons.IH edgeLabel_def)
qed

lemma checkCorners_pure:
  "checkCorners d vs (m, du) =
     (m @ map cornerLabel (filter (\<lambda>k. case d k of None \<Rightarrow> True | Some l \<Rightarrow> length l = 0) vs),
      du @ map (\<lambda>k. cornerLabel k @ '' at '' @ Join '', '' (case d k of None \<Rightarrow> [] | Some l \<Rightarrow> l))
             (filter (\<lambda>k. case d k of None \<Rightarrow> False | Some l \<Rightarrow> length l > 1) vs))"
proof (induction vs arbitrary: m du)
  case Nil
  show ?case by simp
next
  case (Cons k vs)
  show ?case
    by (cases "d k") (simp_all add: Cons.IH cornerLabel_def)
qed

lemma insort_single:
  "insort [x] (map (\<lambda>c. [c]) ys) = map (\<lambda>c. [c]) (insort x ys)"
  by (induction ys) auto

lemma sort_single: "sort (map (\<lambda>c. [c]) xs) = map (\<lambda>c. [c]) (sort xs)"
  by (induction xs) (simp_all add: insort_single)

lemma concat_single: "concat (map (\<lambda>c. [c]) xs) = xs"
  by (induction xs) simp_all

lemma single_concat: "\<forall>t\<in>set ts. length t = 1 \<Longrightarrow> map (\<lambda>c. [c]) (concat ts) = ts"
proof (induction ts)
  case Nil
  show ?case by simp
next
  case (Cons t ts)
  then obtain c where "t = [c]"
    by (cases t) auto
  with Cons show ?case by simp
qed

lemma sortedConcat_single:
  assumes "\<forall>t\<in>set ts. length t = 1"
  shows "sortedConcat ts = sort (concat ts)"
proof -
  have "sortedConcat ts = concat (sort (map (\<lambda>c. [c]) (concat ts)))"
    by (simp add: sortedConcat_def single_concat [OF assms])
  then show ?thesis
    by (simp add: sort_single concat_single)
qed

lemma sortedConcat_eq_iff:
  assumes "\<forall>t\<in>set ts. length t = 1" and "sorted k"
  shows "sortedConcat ts = k \<longleftrightarrow> mset ts = colours k"
proof
  assume "sortedConcat ts = k"
  then have "sort (concat ts) = k"
    by (simp add: sortedConcat_single [OF assms(1)])
  then have "mset (concat ts) = mset k"
    by (metis mset_sort)
  then have "mset (map (\<lambda>c. [c]) (concat ts)) = mset (map (\<lambda>c. [c]) k)"
    by simp
  then show "mset ts = colours k"
    by (simp add: single_concat [OF assms(1)] colours_def)
next
  assume "mset ts = colours k"
  then have "mset (map (\<lambda>c. [c]) (concat ts)) = mset (map (\<lambda>c. [c]) k)"
    by (simp add: single_concat [OF assms(1)] colours_def)
  then have "mset (map hd (map (\<lambda>c. [c]) (concat ts))) = mset (map hd (map (\<lambda>c. [c]) k))"
    by (metis mset_map)
  then have "mset (concat ts) = mset k"
    by (simp add: comp_def)
  then have "sort (concat ts) = k"
    using assms(2) by (metis properties_for_sort)
  then show "sortedConcat ts = k"
    by (simp add: sortedConcat_single [OF assms(1)])
qed

lemma count_list_filter: "P k \<Longrightarrow> count_list (filter P xs) k = count_list xs k"
  by (induction xs) auto

lemma count_list_map_filter: "count_list (map f xs) k = length (filter (\<lambda>x. f x = k) xs)"
  by (induction xs) auto

lemma pigeonhole:
  assumes "distinct V" and "length V = length xs" and "\<forall>k\<in>set V. count_list xs k = 1"
  shows "set xs \<subseteq> set V"
proof -
  let ?P = "\<lambda>x. x \<in> set V"
  have "sum (count_list (filter ?P xs)) (set V) = length (filter ?P xs)"
    by (rule sum_count_set) auto
  moreover have "sum (count_list (filter ?P xs)) (set V) = sum (\<lambda>k. 1) (set V)"
    by (rule sum.cong) (simp_all add: count_list_filter assms(3))
  moreover have "sum (\<lambda>k. 1) (set V) = length xs"
    using assms(1,2) by (simp add: distinct_card)
  ultimately have len: "length (filter ?P xs) = length xs"
    by simp
  show ?thesis
  proof
    fix x
    assume "x \<in> set xs"
    then show "x \<in> set V"
      using length_filter_less [of x xs ?P] len by auto
  qed
qed

lemma layout_goodRead:
  assumes "layout cs" and "face \<in> {''U'', ''D'', ''F'', ''B'', ''R'', ''L''}" and "idx < 9"
  shows "goodRead cs face idx"
proof -
  from assms(1) have faces:
    "length (U cs) = 9" "length (D cs) = 9" "length (F cs) = 9"
    "length (B cs) = 9" "length (R cs) = 9" "length (L cs) = 9"
    and toks: "\<forall>c\<in>set (U cs). length c = 1" "\<forall>c\<in>set (D cs). length c = 1"
      "\<forall>c\<in>set (F cs). length c = 1" "\<forall>c\<in>set (B cs). length c = 1"
      "\<forall>c\<in>set (R cs). length c = 1" "\<forall>c\<in>set (L cs). length c = 1"
    by (simp_all add: layout_def list_all_iff)
  from assms(2) consider "face = ''U''" | "face = ''D''" | "face = ''F''"
    | "face = ''B''" | "face = ''R''" | "face = ''L''"
    by auto
  then show ?thesis
  proof cases
    case 1
    with faces toks assms(3) show ?thesis
      by (simp add: goodRead_def facelet_def sticker_def GetFace_def get_def)
  next
    case 2
    with faces toks assms(3) show ?thesis
      by (simp add: goodRead_def facelet_def sticker_def GetFace_def get_def)
  next
    case 3
    with faces toks assms(3) show ?thesis
      by (simp add: goodRead_def facelet_def sticker_def GetFace_def get_def)
  next
    case 4
    with faces toks assms(3) show ?thesis
      by (simp add: goodRead_def facelet_def sticker_def GetFace_def get_def)
  next
    case 5
    with faces toks assms(3) show ?thesis
      by (simp add: goodRead_def facelet_def sticker_def GetFace_def get_def)
  next
    case 6
    with faces toks assms(3) show ?thesis
      by (simp add: goodRead_def facelet_def sticker_def GetFace_def get_def)
  qed
qed

lemma edge_reads:
  assumes "layout cs"
  shows "\<forall>(face1, idx1, face2, idx2, pos) \<in> set edgePositions.
           goodRead cs face1 idx1 \<and> goodRead cs face2 idx2"
  by (simp add: edgePositions_def layout_goodRead [OF assms])

lemma corner_reads:
  assumes "layout cs"
  shows "\<forall>(face1, idx1, face2, idx2, face3, idx3, pos) \<in> set cornerPositions.
           goodRead cs face1 idx1 \<and> goodRead cs face2 idx2 \<and> goodRead cs face3 idx3"
  by (simp add: cornerPositions_def layout_goodRead [OF assms])

lemma edgeTokens_single:
  assumes "layout cs" and "p \<in> set edgePositions"
  shows "\<forall>t\<in>set (edgeTokens cs p). length t = 1"
  using edge_reads [OF assms(1)] assms(2)
  by (cases p) (auto simp add: edgeTokens_def goodRead_def)

lemma cornerTokens_single:
  assumes "layout cs" and "p \<in> set cornerPositions"
  shows "\<forall>t\<in>set (cornerTokens cs p). length t = 1"
  using corner_reads [OF assms(1)] assms(2)
  by (cases p) (auto simp add: cornerTokens_def goodRead_def)

lemma validEdges_facts:
  "distinct validEdges" "length validEdges = length edgePositions" "\<forall>k\<in>set validEdges. sorted k"
  by (simp_all add: validEdges_def edgePositions_def)

lemma validCorners_facts:
  "distinct validCorners" "length validCorners = length cornerPositions"
  "\<forall>k\<in>set validCorners. sorted k"
  by (simp_all add: validCorners_def cornerPositions_def)

lemma key_eq_colours:
  assumes "\<forall>p\<in>set ps. \<forall>t\<in>set (toks p). length t = 1" and "\<forall>k\<in>set V. sorted k"
    and "p \<in> set ps" and "k \<in> set V"
  shows "sortedConcat (toks p) = k \<longleftrightarrow> mset (toks p) = colours k"
  using assms by (intro sortedConcat_eq_iff) auto

lemma filter_key_colours:
  assumes "\<forall>p\<in>set ps. \<forall>t\<in>set (toks p). length t = 1" and "\<forall>k\<in>set V. sorted k"
    and "k \<in> set V"
  shows "filter (\<lambda>p. sortedConcat (toks p) = k) ps = filter (\<lambda>p. mset (toks p) = colours k) ps"
  by (rule filter_cong [OF refl]) (rule key_eq_colours [OF assms(1,2) _ assms(3)])

lemma counts_occurrences:
  assumes "\<forall>p\<in>set ps. \<forall>t\<in>set (toks p). length t = 1" and "\<forall>k\<in>set V. sorted k"
    and "k \<in> set V"
  shows "foldl (\<lambda>d p. addPosition d (sortedConcat (toks p)) (name p)) Map.empty ps k =
     (if map name (filter (\<lambda>p. mset (toks p) = colours k) ps) = [] then None
      else Some (map name (filter (\<lambda>p. mset (toks p) = colours k) ps)))"
  by (simp add: foldl_addPosition [where key = "\<lambda>p. sortedConcat (toks p)"]
      filter_key_colours [OF assms])

lemma missing_occurrences:
  assumes "\<forall>k\<in>set V. d k = (if occ k = [] then None else Some (occ k))"
  shows "filter (\<lambda>k. case d k of None \<Rightarrow> True | Some l \<Rightarrow> length l = 0) V =
         filter (\<lambda>k. occ k = []) V"
  by (rule filter_cong [OF refl]) (simp add: assms)

lemma duplicate_occurrences:
  assumes "\<forall>k\<in>set V. d k = (if occ k = [] then None else Some (occ k))"
  shows "map (\<lambda>k. lab k @ '' at '' @ Join '', '' (case d k of None \<Rightarrow> [] | Some l \<Rightarrow> l))
           (filter (\<lambda>k. case d k of None \<Rightarrow> False | Some l \<Rightarrow> length l > 1) V) =
         map (\<lambda>k. lab k @ '' at '' @ Join '', '' (occ k)) (filter (\<lambda>k. length (occ k) > 1) V)"
proof -
  have "filter (\<lambda>k. case d k of None \<Rightarrow> False | Some l \<Rightarrow> length l > 1) V =
        filter (\<lambda>k. length (occ k) > 1) V"
    by (rule filter_cong [OF refl]) (simp add: assms)
  moreover have "map (\<lambda>k. lab k @ '' at '' @ Join '', '' (case d k of None \<Rightarrow> [] | Some l \<Rightarrow> l))
           (filter (\<lambda>k. length (occ k) > 1) V) =
         map (\<lambda>k. lab k @ '' at '' @ Join '', '' (occ k)) (filter (\<lambda>k. length (occ k) > 1) V)"
    by (rule map_cong [OF refl]) (auto simp add: assms)
  ultimately show ?thesis
    by simp
qed

lemma invalid_occurrences:
  assumes "\<forall>p\<in>set ps. \<forall>t\<in>set (toks p). length t = 1" and "\<forall>k\<in>set V. sorted k"
  shows "filter (\<lambda>p. sortedConcat (toks p) \<notin> set V) ps =
         filter (\<lambda>p. \<not> list_ex (\<lambda>k. mset (toks p) = colours k) V) ps"
proof (rule filter_cong [OF refl])
  fix p
  assume p: "p \<in> set ps"
  have "sortedConcat (toks p) \<in> set V \<longleftrightarrow> (\<exists>k\<in>set V. sortedConcat (toks p) = k)"
    by auto
  also have "\<dots> \<longleftrightarrow> (\<exists>k\<in>set V. mset (toks p) = colours k)"
    using key_eq_colours [OF assms p] by blast
  finally show "(sortedConcat (toks p) \<notin> set V) = (\<not> list_ex (\<lambda>k. mset (toks p) = colours k) V)"
    by (simp add: list_ex_iff)
qed

lemma once_no_invalid:
  assumes "\<forall>p\<in>set ps. \<forall>t\<in>set (toks p). length t = 1" and "\<forall>k\<in>set V. sorted k"
    and "distinct V" and "length V = length ps"
    and "\<forall>k\<in>set V. length (filter (\<lambda>p. mset (toks p) = colours k) ps) = 1"
  shows "filter (\<lambda>p. \<not> list_ex (\<lambda>k. mset (toks p) = colours k) V) ps = []"
proof -
  have "\<forall>k\<in>set V. count_list (map (\<lambda>p. sortedConcat (toks p)) ps) k = 1"
    using assms(5) by (simp add: count_list_map_filter filter_key_colours [OF assms(1,2)])
  with assms(3,4) have "set (map (\<lambda>p. sortedConcat (toks p)) ps) \<subseteq> set V"
    by (intro pigeonhole) simp_all
  then have "filter (\<lambda>p. sortedConcat (toks p) \<notin> set V) ps = []"
    by (auto simp add: filter_empty_conv)
  then show ?thesis
    by (simp add: invalid_occurrences [OF assms(1,2)])
qed

lemma once_iff:
  "filter (\<lambda>k. occ k = []) V = [] \<and> filter (\<lambda>k. length (occ k) > 1) V = [] \<longleftrightarrow>
   list_all (\<lambda>k. length (occ k) = (1::nat)) V"
proof -
  have "occ k \<noteq> [] \<and> \<not> length (occ k) > 1 \<longleftrightarrow> length (occ k) = 1" for k
    by (cases "occ k") auto
  then show ?thesis
    by (auto simp add: filter_empty_conv list_all_iff)
qed

lemma countEdges_layout:
  assumes "layout cs"
  shows "countEdges cs edgePositions (Map.empty, []) =
     Inr (foldl (\<lambda>d p. addPosition d (sortedConcat (edgeTokens cs p)) (edgeName p))
            Map.empty edgePositions,
          InvalidEdges (report cs))"
proof -
  have "\<forall>(face1, idx1, face2, idx2, pos) \<in> set edgePositions.
      sticker cs face1 idx1 = Inr (facelet cs face1 idx1) \<and>
      sticker cs face2 idx2 = Inr (facelet cs face2 idx2)"
    using edge_reads [OF assms] by (auto simp add: goodRead_def)
  from countEdges_pure [OF this, of Map.empty "[]"] show ?thesis
    using invalid_occurrences [of edgePositions "edgeTokens cs" validEdges]
      edgeTokens_single [OF assms] validEdges_facts(3)
    by (simp add: report_def)
qed

lemma countCorners_layout:
  assumes "layout cs"
  shows "countCorners cs cornerPositions (Map.empty, []) =
     Inr (foldl (\<lambda>d p. addPosition d (sortedConcat (cornerTokens cs p)) (cornerName p))
            Map.empty cornerPositions,
          InvalidCorners (report cs))"
proof -
  have "\<forall>(face1, idx1, face2, idx2, face3, idx3, pos) \<in> set cornerPositions.
      sticker cs face1 idx1 = Inr (facelet cs face1 idx1) \<and>
      sticker cs face2 idx2 = Inr (facelet cs face2 idx2) \<and>
      sticker cs face3 idx3 = Inr (facelet cs face3 idx3)"
    using corner_reads [OF assms] by (auto simp add: goodRead_def)
  from countCorners_pure [OF this, of Map.empty "[]"] show ?thesis
    using invalid_occurrences [of cornerPositions "cornerTokens cs" validCorners]
      cornerTokens_single [OF assms] validCorners_facts(3)
    by (simp add: report_def)
qed

lemma checkEdges_layout:
  assumes "layout cs"
  shows "checkEdges (foldl (\<lambda>d p. addPosition d (sortedConcat (edgeTokens cs p)) (edgeName p))
            Map.empty edgePositions) validEdges ([], []) =
         (MissingEdges (report cs), DuplicateEdges (report cs))"
proof -
  let ?d = "foldl (\<lambda>d p. addPosition d (sortedConcat (edgeTokens cs p)) (edgeName p))
            Map.empty edgePositions"
  have d: "\<forall>k\<in>set validEdges. ?d k =
      (if edgeOccurrences cs k = [] then None else Some (edgeOccurrences cs k))"
    using counts_occurrences [of edgePositions "edgeTokens cs" validEdges _ edgeName]
      edgeTokens_single [OF assms] validEdges_facts(3)
    by (simp add: edgeOccurrences_def)
  show ?thesis
    unfolding checkEdges_pure missing_occurrences [OF d] duplicate_occurrences [OF d]
    by (simp add: report_def)
qed

lemma checkCorners_layout:
  assumes "layout cs"
  shows "checkCorners (foldl (\<lambda>d p. addPosition d (sortedConcat (cornerTokens cs p)) (cornerName p))
            Map.empty cornerPositions) validCorners ([], []) =
         (MissingCorners (report cs), DuplicateCorners (report cs))"
proof -
  let ?d = "foldl (\<lambda>d p. addPosition d (sortedConcat (cornerTokens cs p)) (cornerName p))
            Map.empty cornerPositions"
  have d: "\<forall>k\<in>set validCorners. ?d k =
      (if cornerOccurrences cs k = [] then None else Some (cornerOccurrences cs k))"
    using counts_occurrences [of cornerPositions "cornerTokens cs" validCorners _ cornerName]
      cornerTokens_single [OF assms] validCorners_facts(3)
    by (simp add: cornerOccurrences_def)
  show ?thesis
    unfolding checkCorners_pure missing_occurrences [OF d] duplicate_occurrences [OF d]
    by (simp add: report_def)
qed

lemma ValidationResult_eta:
  "\<lparr> MissingEdges = MissingEdges r, DuplicateEdges = DuplicateEdges r,
     InvalidEdges = InvalidEdges r, MissingCorners = MissingCorners r,
     DuplicateCorners = DuplicateCorners r, InvalidCorners = InvalidCorners r \<rparr> = r"
  by (cases r) simp

lemma ValidateState_layout:
  assumes "layout cs"
  shows "ValidateState cs = Inr (if HasIssues (report cs) then Some (report cs) else None)"
  by (simp add: ValidateState_def countEdges_layout [OF assms] countCorners_layout [OF assms]
      checkEdges_layout [OF assms] checkCorners_layout [OF assms] Let_def ValidationResult_eta)

lemma HasIssues_report:
  assumes "layout cs"
  shows "HasIssues (report cs) \<longleftrightarrow> \<not> exactlyOnce cs"
proof -
  let ?oe = "list_all (\<lambda>k. length (edgeOccurrences cs k) = 1) validEdges"
  let ?oc = "list_all (\<lambda>k. length (cornerOccurrences cs k) = 1) validCorners"
  have me: "MissingEdges (report cs) = [] \<and> DuplicateEdges (report cs) = [] \<longleftrightarrow> ?oe"
    using once_iff [of "edgeOccurrences cs" validEdges] by (simp add: report_def)
  have mc: "MissingCorners (report cs) = [] \<and> DuplicateCorners (report cs) = [] \<longleftrightarrow> ?oc"
    using once_iff [of "cornerOccurrences cs" validCorners] by (simp add: report_def)
  have ie: "InvalidEdges (report cs) = []" if ?oe
    using once_no_invalid [of edgePositions "edgeTokens cs" validEdges]
      edgeTokens_single [OF assms] validEdges_facts that
    by (simp add: report_def edgeOccurrences_def list_all_iff)
  have ic: "InvalidCorners (report cs) = []" if ?oc
    using once_no_invalid [of cornerPositions "cornerTokens cs" validCorners]
      cornerTokens_single [OF assms] validCorners_facts that
    by (simp add: report_def cornerOccurrences_def list_all_iff)
  have "\<not> HasIssues (report cs) \<longleftrightarrow>
      (MissingEdges (report cs) = [] \<and> DuplicateEdges (report cs) = []) \<and>
      InvalidEdges (report cs) = [] \<and>
      (MissingCorners (report cs) = [] \<and> DuplicateCorners (report cs) = []) \<and>
      InvalidCorners (report cs) = []"
    by (auto simp add: HasIssues_def)
  also have "\<dots> \<longleftrightarrow> ?oe \<and> ?oc"
    unfolding me mc using ie ic by blast
  finally show ?thesis
    by (auto simp add: exactlyOnce_def)
qed

text \<open>
  C1 (amended).  On a 54-sticker layout \<open>ValidateState\<close> reports no issues exactly when
  each of the 12 canonical edges occurs exactly once among the 12 edge positions and each of
  the 8 canonical corners exactly once among the 8 corner positions.  Otherwise its result
  is the report of the layout: the missing edges and corners by their colours alone, the
  duplicate ones by their colours and the names of all positions that hold them, and the
  positions whose colours never meet on a cube by their stickers and their name.
\<close>

theorem ValidateState_report:
  assumes "layout cs"
  shows "ValidateState cs = Inr (if exactlyOnce cs then None else Some (report cs))"
  by (simp add: ValidateState_layout [OF assms] HasIssues_report [OF assms])

lemma layout_yellowUF: "layout yellowUF"
  by code_simp

lemma exactlyOnce_yellowUF: "\<not> exactlyOnce yellowUF"
  by code_simp

lemma report_yellowUF:
  "report yellowUF =
     \<lparr> MissingEdges = [''G-W''], DuplicateEdges = [''G-Y at UF, DF''], InvalidEdges = [],
       MissingCorners = [], DuplicateCorners = [], InvalidCorners = [] \<rparr>"
  by code_simp

theorem ValidateState_report_witness:
  "layout yellowUF \<and> \<not> exactlyOnce yellowUF \<and>
   ValidateState yellowUF =
     Inr (Some \<lparr> MissingEdges = [''G-W''], DuplicateEdges = [''G-Y at UF, DF''],
                 InvalidEdges = [], MissingCorners = [], DuplicateCorners = [],
                 InvalidCorners = [] \<rparr>)"
  using ValidateState_report [OF layout_yellowUF] layout_yellowUF exactlyOnce_yellowUF
    report_yellowUF
  by simp

text \<open>
  The claim as it stands says that every item of the report is tagged with the name of
  its canonical position.  The item of a missing edge is not: on the solved cube with a
  yellow sticker at \<open>U[7]\<close> the edge of green and white is missing, its item is \<open>"G-W"\<close>,
  and no name of a position is part of that text.
\<close>

lemma ValidateState_yellowUF:
  "ValidateState yellowUF =
     Inr (Some \<lparr> MissingEdges = [''G-W''], DuplicateEdges = [''G-Y at UF, DF''],
                 InvalidEdges = [], MissingCorners = [], DuplicateCorners = [],
                 InvalidCorners = [] \<rparr>)"
  by code_simp

lemma no_position_in_missing_item: "\<not> list_ex (contains ''G-W'') positionNames"
  by code_simp

theorem missing_item_untagged:
  "ValidateState yellowUF =
     Inr (Some \<lparr> MissingEdges = [''G-W''], DuplicateEdges = [''G-Y at UF, DF''],
                 InvalidEdges = [], MissingCorners = [], DuplicateCorners = [],
                 InvalidCorners = [] \<rparr>) \<and>
   \<not> list_ex (contains ''G-W'') positionNames"
  using ValidateState_yellowUF no_position_in_missing_item
  by simp

section \<open>Unknown tokens and colour counts\<close>

lemma colorToFace_item_unknown:
  "c \<notin> set colourTokens \<Longrightarrow> colorToFace_item c = Inl (KeyNotFoundException c)"
  by (simp add: colorToFace_item_def colourTokens_def map_of_eq_None_iff [THEN iffD2])

lemma appendFace_unknown:
  "\<exists>c\<in>set face. c \<notin> set colourTokens \<Longrightarrow> \<exists>e. appendFace sb face = Inl e"
proof (induction face arbitrary: sb)
  case Nil
  then show ?case by simp
next
  case (Cons c face)
  show ?case
  proof (cases "colorToFace_item c")
    case (Inl e)
    then show ?thesis by simp
  next
    case (Inr ch)
    then have "c \<in> set colourTokens"
      using colorToFace_item_unknown [of c] by auto
    with Cons.prems have "\<exists>c\<in>set face. c \<notin> set colourTokens"
      by auto
    from Cons.IH [OF this] Inr show ?thesis
      by simp
  qed
qed

lemma appendFaces_unknown:
  "\<exists>face\<in>set faces. \<exists>c\<in>set face. c \<notin> set colourTokens \<Longrightarrow>
   \<exists>e. appendFaces sb faces = Inl e"
proof (induction faces arbitrary: sb)
  case Nil
  then show ?case by simp
next
  case (Cons face faces)
  show ?case
  proof (cases "appendFace sb face")
    case (Inl e)
    then show ?thesis by simp
  next
    case (Inr sb')
    then have "\<not> (\<exists>c\<in>set face. c \<notin> set colourTokens)"
      using appendFace_unknown [of face sb] by auto
    with Cons.prems have "\<exists>face\<in>set faces. \<exists>c\<in>set face. c \<notin> set colourTokens"
      by auto
    from Cons.IH [OF this] Inr show ?thesis
      by simp
  qed
qed

lemma ToKociembaString_unknown:
  assumes "unknownToken cs"
  shows "\<exists>e. ToKociembaString cs = Inl e"
proof -
  from assms have "\<exists>face\<in>set [U cs, R cs, F cs, D cs, L cs, B cs]. \<exists>c\<in>set face. c \<notin> set colourTokens"
    by (auto simp add: unknownToken_def stickers_def list_ex_iff)
  then show ?thesis
    unfolding ToKociembaString_def by (rule appendFaces_unknown)
qed

lemma Solve_unknown:
  assumes "unknownToken cs"
  shows "\<exists>e. \<forall>solution. Solve solution ms cs =
           Inr \<lparr> Solution = [], MoveCount = 0, SolveTimeMs = ms, Error = Some e \<rparr>"
proof -
  from ToKociembaString_unknown [OF assms] obtain ex where ex: "ToKociembaString cs = Inl ex"
    by blast
  show ?thesis
  proof (cases "ValidateState cs")
    case (Inl e)
    then show ?thesis
      by (simp add: Solve_def Solve_try_def new_SolveResponse_def)
  next
    case (Inr v)
    then show ?thesis
      using ex by (cases v) (simp_all add: Solve_def Solve_try_def new_SolveResponse_def)
  qed
qed

lemma count_list_concat:
  "count_list (concat xss) c = sum_list (map (\<lambda>xs. count_list xs c) xss)"
  by (induction xss) simp_all

lemma keys_permutation:
  assumes "\<forall>p\<in>set ps. \<forall>t\<in>set (toks p). length t = 1" and "\<forall>k\<in>set V. sorted k"
    and "distinct V" and "length V = length ps"
    and "\<forall>k\<in>set V. length (filter (\<lambda>p. mset (toks p) = colours k) ps) = 1"
  shows "mset (map (\<lambda>p. sortedConcat (toks p)) ps) = mset V"
proof (rule multiset_eqI)
  fix x
  let ?keys = "map (\<lambda>p. sortedConcat (toks p)) ps"
  have one: "\<forall>k\<in>set V. count_list ?keys k = 1"
    using assms(5) by (simp add: count_list_map_filter filter_key_colours [OF assms(1,2)])
  with assms(3,4) have sub: "set ?keys \<subseteq> set V"
    by (intro pigeonhole) simp_all
  have l: "count (mset ?keys) x = count_list ?keys x"
    by (rule count_mset)
  have r: "count (mset V) x = (if x \<in> set V then 1 else 0)"
    using assms(3) by (simp only: distinct_count_atmost_1)
  show "count (mset ?keys) x = count (mset V) x"
  proof (cases "x \<in> set V")
    case True
    with one show ?thesis
      unfolding l r by simp
  next
    case False
    with sub have "x \<notin> set ?keys"
      by auto
    then have "count_list ?keys x = 0"
      by (simp only: count_list_0_iff not_False_eq_True)
    with False show ?thesis
      unfolding l r by simp
  qed
qed

lemma once_counts:
  assumes "\<forall>p\<in>set ps. \<forall>t\<in>set (toks p). length t = 1" and "\<forall>k\<in>set V. sorted k"
    and "distinct V" and "length V = length ps"
    and "\<forall>k\<in>set V. length (filter (\<lambda>p. mset (toks p) = colours k) ps) = 1"
  shows "count_list (concat (map toks ps)) c =
         sum_list (map (\<lambda>k. count_list (map (\<lambda>ch. [ch]) k) c) V)"
proof -
  let ?key = "\<lambda>p. sortedConcat (toks p)"
  let ?g = "\<lambda>k. count_list (map (\<lambda>ch. [ch]) k) c"
  have perm: "mset (map ?key ps) = mset V"
    by (rule keys_permutation [OF assms])
  have "set (map ?key ps) = set V"
    using perm by (metis set_mset_mset)
  then have inV: "?key p \<in> set V" if "p \<in> set ps" for p
    using that by auto
  have "count_list (toks p) c = ?g (?key p)" if p: "p \<in> set ps" for p
  proof -
    have "mset (toks p) = colours (?key p)"
      using key_eq_colours [OF assms(1,2) p inV [OF p]] by simp
    then have "count (mset (toks p)) c = count (mset (map (\<lambda>ch. [ch]) (?key p))) c"
      by (simp add: colours_def)
    then show ?thesis
      by (simp only: count_mset)
  qed
  then have eq: "map (\<lambda>p. count_list (toks p) c) ps = map ?g (map ?key ps)"
    by simp
  have "count_list (concat (map toks ps)) c = sum_list (map (\<lambda>p. count_list (toks p) c) ps)"
    by (simp add: count_list_concat comp_def)
  also have "\<dots> = sum_list (map ?g (map ?key ps))"
    by (simp only: eq)
  also have "\<dots> = sum_mset (image_mset ?g (mset (map ?key ps)))"
    by (metis mset_map sum_mset_sum_list)
  also have "\<dots> = sum_mset (image_mset ?g (mset V))"
    by (simp only: perm)
  also have "\<dots> = sum_list (map ?g V)"
    by (metis mset_map sum_mset_sum_list)
  finally show ?thesis .
qed

lemma validEdges_colour_count:
  "sum_list (map (\<lambda>k. count_list (map (\<lambda>ch. [ch]) k) c) validEdges) =
     (if c \<in> set colourTokens then 4 else 0)"
  by (simp add: validEdges_def colourTokens_def colorToFace_def)

lemma validCorners_colour_count:
  "sum_list (map (\<lambda>k. count_list (map (\<lambda>ch. [ch]) k) c) validCorners) =
     (if c \<in> set colourTokens then 4 else 0)"
  by (simp add: validCorners_def colourTokens_def colorToFace_def)

lemma nine_elements:
  assumes "length f = 9"
  obtains a0 a1 a2 a3 a4 a5 a6 a7 a8 where "f = [a0, a1, a2, a3, a4, a5, a6, a7, a8]"
  using assms by (auto simp add: eval_nat_numeral length_Suc_conv)

lemma offCenter_positions:
  assumes "length (U cs) = 9" and "length (D cs) = 9" and "length (F cs) = 9"
    and "length (B cs) = 9" and "length (R cs) = 9" and "length (L cs) = 9"
  shows "mset (offCenterStickers cs) =
         mset (concat (map (edgeTokens cs) edgePositions)) +
         mset (concat (map (cornerTokens cs) cornerPositions))"
proof -
  from assms(1) obtain u0 u1 u2 u3 u4 u5 u6 u7 u8
    where u: "U cs = [u0, u1, u2, u3, u4, u5, u6, u7, u8]" by (rule nine_elements)
  from assms(2) obtain d0 d1 d2 d3 d4 d5 d6 d7 d8
    where d: "D cs = [d0, d1, d2, d3, d4, d5, d6, d7, d8]" by (rule nine_elements)
  from assms(3) obtain f0 f1 f2 f3 f4 f5 f6 f7 f8
    where f: "F cs = [f0, f1, f2, f3, f4, f5, f6, f7, f8]" by (rule nine_elements)
  from assms(4) obtain b0 b1 b2 b3 b4 b5 b6 b7 b8
    where b: "B cs = [b0, b1, b2, b3, b4, b5, b6, b7, b8]" by (rule nine_elements)
  from assms(5) obtain r0 r1 r2 r3 r4 r5 r6 r7 r8
    where r: "R cs = [r0, r1, r2, r3, r4, r5, r6, r7, r8]" by (rule nine_elements)
  from assms(6) obtain l0 l1 l2 l3 l4 l5 l6 l7 l8
    where l: "L cs = [l0, l1, l2, l3, l4, l5, l6, l7, l8]" by (rule nine_elements)
  have off: "mset (offCenterStickers cs) =
      {#u0, u1, u2, u3, u5, u6, u7, u8, r0, r1, r2, r3, r5, r6, r7, r8,
        f0, f1, f2, f3, f5, f6, f7, f8, d0, d1, d2, d3, d5, d6, d7, d8,
        l0, l1, l2, l3, l5, l6, l7, l8, b0, b1, b2, b3, b5, b6, b7, b8#}"
    by (simp add: offCenterStickers_def offCenter_def u d f b r l)
  have e: "concat (map (edgeTokens cs) edgePositions) =
      [u7, f1, u5, r1, u1, b1, u3, l1, d1, f7, d5, r7, d7, b7, d3, l7,
       f5, r3, f3, l5, b3, r5, b5, l3]"
    by (simp add: edgePositions_def edgeTokens_def facelet_def sticker_def GetFace_def get_def
        u d f b r l)
  have c: "concat (map (cornerTokens cs) cornerPositions) =
      [u8, f2, r0, u6, f0, l2, u2, b0, r2, u0, b2, l0,
       d2, f8, r6, d0, f6, l8, d8, b6, r8, d6, b8, l6]"
    by (simp add: cornerPositions_def cornerTokens_def facelet_def sticker_def GetFace_def get_def
        u d f b r l)
  show ?thesis
    unfolding off e c by (simp add: ac_simps)
qed

lemma validated_colour_counts:
  assumes "layout cs" and "ValidateState cs = Inr None"
  shows "count_list (offCenterStickers cs) c = (if c \<in> set colourTokens then 8 else 0)"
proof -
  from assms have "\<not> HasIssues (report cs)"
    by (simp add: ValidateState_layout split: if_splits)
  then have once: "exactlyOnce cs"
    by (simp add: HasIssues_report [OF assms(1)])
  have "count_list (concat (map (edgeTokens cs) edgePositions)) c =
      sum_list (map (\<lambda>k. count_list (map (\<lambda>ch. [ch]) k) c) validEdges)"
    using once edgeTokens_single [OF assms(1)] validEdges_facts
    by (intro once_counts) (simp_all add: exactlyOnce_def edgeOccurrences_def list_all_iff)
  then have e: "count_list (concat (map (edgeTokens cs) edgePositions)) c =
      (if c \<in> set colourTokens then 4 else 0)"
    by (simp only: validEdges_colour_count)
  have "count_list (concat (map (cornerTokens cs) cornerPositions)) c =
      sum_list (map (\<lambda>k. count_list (map (\<lambda>ch. [ch]) k) c) validCorners)"
    using once cornerTokens_single [OF assms(1)] validCorners_facts
    by (intro once_counts) (simp_all add: exactlyOnce_def cornerOccurrences_def list_all_iff)
  then have k: "count_list (concat (map (cornerTokens cs) cornerPositions)) c =
      (if c \<in> set colourTokens then 4 else 0)"
    by (simp only: validCorners_colour_count)
  from assms(1) have "mset (offCenterStickers cs) =
         mset (concat (map (edgeTokens cs) edgePositions)) +
         mset (concat (map (cornerTokens cs) cornerPositions))"
    by (intro offCenter_positions) (simp_all add: layout_def)
  then have "count (mset (offCenterStickers cs)) c =
         count (mset (concat (map (edgeTokens cs) edgePositions))) c +
         count (mset (concat (map (cornerTokens cs) cornerPositions))) c"
    by simp
  then have "count_list (offCenterStickers cs) c =
         count_list (concat (map (edgeTokens cs) edgePositions)) c +
         count_list (concat (map (cornerTokens cs) cornerPositions)) c"
    by (simp only: count_mset)
  then show ?thesis
    by (simp only: e k) simp
qed

lemma ValidateState_centers:
  assumes "differOnlyInCenters cs cs'"
  shows "ValidateState cs' = ValidateState cs"
proof -
  have e: "countEdges cs edgePositions acc = countEdges cs' edgePositions acc" for acc
    by (rule countEdges_cong) (simp add: edgePositions_def sticker_off_center [OF assms])
  have c: "countCorners cs cornerPositions acc = countCorners cs' cornerPositions acc" for acc
    by (rule countCorners_cong) (simp add: cornerPositions_def sticker_off_center [OF assms])
  show ?thesis
    unfolding ValidateState_def e c by (rule refl)
qed

lemma colorToFace_item_known:
  "c \<in> set colourTokens \<Longrightarrow> colorToFace_item c = Inr (faceLetter c)"
  by (auto simp add: colorToFace_item_def faceLetter_def colourTokens_def colorToFace_def)

lemma appendFace_known:
  "\<forall>c\<in>set face. c \<in> set colourTokens \<Longrightarrow> appendFace sb face = Inr (sb @ map faceLetter face)"
  by (induction face arbitrary: sb) (simp_all add: colorToFace_item_known)

lemma appendFaces_known:
  "\<forall>face\<in>set faces. \<forall>c\<in>set face. c \<in> set colourTokens \<Longrightarrow>
   appendFaces sb faces = Inr (sb @ map faceLetter (concat faces))"
  by (induction faces arbitrary: sb) (simp_all add: appendFace_known)

lemma ToKociembaString_known:
  assumes "\<not> unknownToken cs"
  shows "ToKociembaString cs = Inr (map faceLetter (stickers cs))"
proof -
  from assms have "\<forall>face\<in>set [U cs, R cs, F cs, D cs, L cs, B cs]. \<forall>c\<in>set face. c \<in> set colourTokens"
    by (auto simp add: unknownToken_def stickers_def list_ex_iff)
  from appendFaces_known [OF this, of "[]"] show ?thesis
    by (simp add: ToKociembaString_def stickers_def)
qed

lemma count_list_map_inj:
  assumes "inj_on f A" and "set xs \<subseteq> A" and "c \<in> A"
  shows "count_list (map f xs) (f c) = count_list xs c"
  using assms(2)
proof (induction xs)
  case Nil
  show ?case by simp
next
  case (Cons x xs)
  then have "x \<in> A" by simp
  with assms(1,3) have "f x = f c \<longleftrightarrow> x = c"
    by (auto dest: inj_onD)
  with Cons show ?case by simp
qed

lemma faceLetter_inj: "inj_on faceLetter (set colourTokens)"
  by (simp add: inj_on_def colourTokens_def colorToFace_def faceLetter_def)

lemma solved_counts:
  "list_all (\<lambda>c. count_list solvedKociembaString (faceLetter c) = 9) colourTokens"
  by code_simp

lemma miscounted_not_solved:
  assumes "\<not> unknownToken cs" and "miscounted cs"
  shows "map faceLetter (stickers cs) \<noteq> solvedKociembaString"
proof
  assume eq: "map faceLetter (stickers cs) = solvedKociembaString"
  from assms(1) have sub: "set (stickers cs) \<subseteq> set colourTokens"
    by (auto simp add: unknownToken_def list_ex_iff)
  have "count_list (stickers cs) c = 9" if c: "c \<in> set colourTokens" for c
  proof -
    have "count_list (map faceLetter (stickers cs)) (faceLetter c) = count_list (stickers cs) c"
      using faceLetter_inj sub c by (rule count_list_map_inj)
    moreover have "count_list solvedKociembaString (faceLetter c) = 9"
      using solved_counts c by (simp add: list_all_iff)
    ultimately show ?thesis
      by (simp add: eq)
  qed
  with assms(2) show False
    by (simp add: miscounted_def list_all_iff)
qed

lemma face_split: "mset face = mset (offCenter face) + mset (center face)"
proof -
  have "face = take 4 face @ take 1 (drop 4 face) @ drop 1 (drop 4 face)"
    by (simp only: append_take_drop_id)
  then have "mset face = mset (take 4 face @ take 1 (drop 4 face) @ drop 5 face)"
    by simp
  then show ?thesis
    by (simp add: offCenter_def center_def)
qed

lemma stickers_split:
  "count_list (stickers cs) c =
     count_list (offCenterStickers cs) c + count_list (centerStickers cs) c"
proof -
  have "mset (stickers cs) = mset (offCenterStickers cs) + mset (centerStickers cs)"
    by (simp add: stickers_def offCenterStickers_def centerStickers_def
        face_split [of "U cs"] face_split [of "R cs"] face_split [of "F cs"]
        face_split [of "D cs"] face_split [of "L cs"] face_split [of "B cs"])
  then have "count (mset (stickers cs)) c =
      count (mset (offCenterStickers cs)) c + count (mset (centerStickers cs)) c"
    by simp
  then show ?thesis
    by (simp only: count_mset)
qed

lemma known_layout:
  assumes "ninePerFace cs" and "\<not> unknownToken cs"
  shows "layout cs"
proof -
  have one: "\<forall>c\<in>set colourTokens. length c = 1"
    by (simp add: colourTokens_def colorToFace_def)
  from assms(2) have "\<forall>face\<in>set [U cs, R cs, F cs, D cs, L cs, B cs]. \<forall>c\<in>set face. c \<in> set colourTokens"
    by (auto simp add: unknownToken_def stickers_def list_ex_iff)
  with one have "\<forall>face\<in>set [U cs, R cs, F cs, D cs, L cs, B cs]. \<forall>c\<in>set face. length c = 1"
    by blast
  with assms(1) show ?thesis
    by (simp add: layout_def ninePerFace_def list_all_iff)
qed

lemma Solve_engine:
  assumes "ValidateState cs = Inr None" and "ToKociembaString cs = Inr k"
    and "k \<noteq> solvedKociembaString"
  shows "Solve solution ms cs = Inr (engineResponse ms (solution k 22 10000 False False))"
  using assms
  by (simp add: Solve_def Solve_try_def engineResponse_def new_SolveResponse_def Let_def
      split: sum.split)

lemma counts_yellowCenter:
  "count_list (stickers yellowCenter) ''W'' = 8 \<and> count_list (stickers yellowCenter) ''Y'' = 10"
  by code_simp

lemma ValidateState_yellowCenter: "ValidateState yellowCenter = Inr None"
  by code_simp

lemma ToKociembaString_yellowCenter:
  "ToKociembaString yellowCenter =
     Inr ''UUUUDUUUURRRRRRRRRFFFFFFFFFDDDDDDDDDLLLLLLLLLBBBBBBBBB''"
  by code_simp

lemma layout_yellowCenter: "layout yellowCenter \<and> \<not> unknownToken yellowCenter"
  by code_simp

text \<open>
  C2 (amended).  \<open>ValidateState\<close> looks neither for unknown tokens nor at the number of
  stickers of a colour; it checks the edge and the corner positions, and never a centre.
  Still, a cube state that holds an unknown token anywhere is answered by \<open>Solve\<close> with an
  error that is the same for every search engine, so the engine is not reached: either
  validation reports an issue or the lookup in \<open>ToKociembaString\<close> throws.  A cube state
  of nine stickers a face, all of recognized colours, that passes validation has each of the
  six colours exactly eight times on its 48 stickers off the centres, so that a colour
  occurs eight times plus the number of centres that show it; it passes validation whatever
  is put on its centres; it is converted to its cube string; and when a colour does not
  occur nine times, that string is not the solved one and the response of \<open>Solve\<close> is
  built from the answer of the search engine to that string, with 22 and 10000.  The
  engine's answer \<open>"Error 1"\<close> gives the error of the wrong number of facelets.
\<close>

theorem Solve_rejects_before_search:
  "(unknownToken cs \<longrightarrow>
      (\<exists>e. \<forall>solution. Solve solution ms cs =
         Inr \<lparr> Solution = [], MoveCount = 0, SolveTimeMs = ms, Error = Some e \<rparr>)) \<and>
   (ninePerFace cs \<and> \<not> unknownToken cs \<and> ValidateState cs = Inr None \<longrightarrow>
      (\<forall>c. count_list (offCenterStickers cs) c = (if c \<in> set colourTokens then 8 else 0)) \<and>
      (\<forall>c. count_list (stickers cs) c =
            count_list (offCenterStickers cs) c + count_list (centerStickers cs) c) \<and>
      (\<forall>cs'. differOnlyInCenters cs cs' \<longrightarrow> ValidateState cs' = Inr None) \<and>
      (\<exists>k. ToKociembaString cs = Inr k \<and>
           (miscounted cs \<longrightarrow> k \<noteq> solvedKociembaString) \<and>
           (k \<noteq> solvedKociembaString \<longrightarrow>
              (\<forall>solution. Solve solution ms cs =
                 Inr (engineResponse ms (solution k 22 10000 False False)))))) \<and>
   engineResponse ms (Inr ''Error 1'') =
     \<lparr> Solution = [], MoveCount = 0, SolveTimeMs = ms,
       Error = Some ''Invalid cube: Not exactly one facelet of each color'' \<rparr>"
proof (intro conjI impI)
  assume "unknownToken cs"
  then show "\<exists>e. \<forall>solution. Solve solution ms cs =
         Inr \<lparr> Solution = [], MoveCount = 0, SolveTimeMs = ms, Error = Some e \<rparr>"
    by (rule Solve_unknown)
next
  assume a: "ninePerFace cs \<and> \<not> unknownToken cs \<and> ValidateState cs = Inr None"
  then have l: "layout cs"
    by (simp add: known_layout)
  show "\<forall>c. count_list (offCenterStickers cs) c = (if c \<in> set colourTokens then 8 else 0)"
    using validated_colour_counts [OF l] a by simp
next
  show "\<forall>c. count_list (stickers cs) c =
            count_list (offCenterStickers cs) c + count_list (centerStickers cs) c"
    by (simp add: stickers_split)
next
  assume a: "ninePerFace cs \<and> \<not> unknownToken cs \<and> ValidateState cs = Inr None"
  then show "\<forall>cs'. differOnlyInCenters cs cs' \<longrightarrow> ValidateState cs' = Inr None"
    by (simp add: ValidateState_centers)
next
  assume a: "ninePerFace cs \<and> \<not> unknownToken cs \<and> ValidateState cs = Inr None"
  let ?k = "map faceLetter (stickers cs)"
  from a have k: "ToKociembaString cs = Inr ?k"
    by (simp add: ToKociembaString_known)
  moreover have "miscounted cs \<longrightarrow> ?k \<noteq> solvedKociembaString"
    using a by (simp add: miscounted_not_solved)
  moreover have "?k \<noteq> solvedKociembaString \<longrightarrow>
      (\<forall>solution. Solve solution ms cs =
         Inr (engineResponse ms (solution ?k 22 10000 False False)))"
    using a k by (simp add: Solve_engine)
  ultimately show "\<exists>k. ToKociembaString cs = Inr k \<and>
           (miscounted cs \<longrightarrow> k \<noteq> solvedKociembaString) \<and>
           (k \<noteq> solvedKociembaString \<longrightarrow>
              (\<forall>solution. Solve solution ms cs =
                 Inr (engineResponse ms (solution k 22 10000 False False))))"
    by blast
next
  show "engineResponse ms (Inr ''Error 1'') =
     \<lparr> Solution = [], MoveCount = 0, SolveTimeMs = ms,
       Error = Some ''Invalid cube: Not exactly one facelet of each color'' \<rparr>"
    by (simp add: engineResponse_def StartsWith_def GetErrorMessage_def)
qed

lemma gluedUF_facts:
  "unknownToken gluedUF \<and> ninePerFace gluedUF \<and> ValidateState gluedUF = Inr None"
  by code_simp

lemma yellowCenter_facts:
  "ninePerFace yellowCenter \<and> miscounted yellowCenter \<and>
   differOnlyInCenters yellowCenter wrongCenters"
  by code_simp

theorem Solve_rejects_before_search_witness:
  "unknownToken gluedUF \<and> ninePerFace gluedUF \<and> ValidateState gluedUF = Inr None \<and>
   (\<exists>e. \<forall>solution. Solve solution 0 gluedUF =
         Inr \<lparr> Solution = [], MoveCount = 0, SolveTimeMs = 0, Error = Some e \<rparr>) \<and>
   ninePerFace yellowCenter \<and> \<not> unknownToken yellowCenter \<and>
   ValidateState yellowCenter = Inr None \<and> miscounted yellowCenter \<and>
   differOnlyInCenters yellowCenter wrongCenters \<and> ValidateState wrongCenters = Inr None \<and>
   (\<forall>c. count_list (offCenterStickers yellowCenter) c =
         (if c \<in> set colourTokens then 8 else 0)) \<and>
   (\<exists>k. ToKociembaString yellowCenter = Inr k \<and> k \<noteq> solvedKociembaString \<and>
        (\<forall>solution. Solve solution 0 yellowCenter =
           Inr (engineResponse 0 (solution k 22 10000 False False))))"
proof -
  note g = gluedUF_facts
  note y = yellowCenter_facts layout_yellowCenter ValidateState_yellowCenter
  from Solve_rejects_before_search [of gluedUF 0] g
  have 1: "\<exists>e. \<forall>solution. Solve solution 0 gluedUF =
         Inr \<lparr> Solution = [], MoveCount = 0, SolveTimeMs = 0, Error = Some e \<rparr>"
    by blast
  from Solve_rejects_before_search [of yellowCenter 0] y
  have 2: "(\<forall>c. count_list (offCenterStickers yellowCenter) c =
         (if c \<in> set colourTokens then 8 else 0)) \<and>
      (\<forall>cs'. differOnlyInCenters yellowCenter cs' \<longrightarrow> ValidateState cs' = Inr None) \<and>
      (\<exists>k. ToKociembaString yellowCenter = Inr k \<and>
           (miscounted yellowCenter \<longrightarrow> k \<noteq> solvedKociembaString) \<and>
           (k \<noteq> solvedKociembaString \<longrightarrow>
              (\<forall>solution. Solve solution 0 yellowCenter =
                 Inr (engineResponse 0 (solution k 22 10000 False False)))))"
    by blast
  from 2 y have 3: "ValidateState wrongCenters = Inr None"
    by blast
  from 2 y have 4: "\<exists>k. ToKociembaString yellowCenter = Inr k \<and> k \<noteq> solvedKociembaString \<and>
        (\<forall>solution. Solve solution 0 yellowCenter =
           Inr (engineResponse 0 (solution k 22 10000 False False)))"
    by blast
  from 1 2 3 4 g y show ?thesis
    by blast
qed

text \<open>
  The claim as it stands fails on the solved cube with a yellow sticker on the centre of
  the upper face: white occurs 8 times and yellow 10 times, all tokens are recognized, and
  yet validation reports no issue, the cube string is built, and the response of \<open>Solve\<close>
  is what the search engine makes of that string.
\<close>

theorem miscounted_layout_reaches_engine:
  "layout yellowCenter \<and> \<not> unknownToken yellowCenter \<and>
   count_list (stickers yellowCenter) ''W'' = 8 \<and>
   count_list (stickers yellowCenter) ''Y'' = 10 \<and>
   ValidateState yellowCenter = Inr None \<and>
   ToKociembaString yellowCenter =
     Inr ''UUUUDUUUURRRRRRRRRFFFFFFFFFDDDDDDDDDLLLLLLLLLBBBBBBBBB'' \<and>
   Solve (\<lambda>k maxDepth timeOut useSeparator buildTables. Inr ''Error 1'') 0 yellowCenter =
     Inr \<lparr> Solution = [], MoveCount = 0, SolveTimeMs = 0,
           Error = Some ''Invalid cube: Not exactly one facelet of each color'' \<rparr> \<and>
   Solve (\<lambda>k maxDepth timeOut useSeparator buildTables. Inr ''R U'') 0 yellowCenter =
     Inr \<lparr> Solution = [''R'', ''U''], MoveCount = 2, SolveTimeMs = 0, Error = None \<rparr>"
proof -
  have "Solve (\<lambda>k maxDepth timeOut useSeparator buildTables. Inr ''Error 1'') 0 yellowCenter =
     Inr \<lparr> Solution = [], MoveCount = 0, SolveTimeMs = 0,
           Error = Some ''Invalid cube: Not exactly one facelet of each color'' \<rparr>"
    by (simp add: Solve_def Solve_try_def ValidateState_yellowCenter
        ToKociembaString_yellowCenter solvedKociembaString_def StartsWith_def
        GetErrorMessage_def new_SolveResponse_def)
  moreover have "ParseSolution ''R U'' = [''R'', ''U'']"
    by code_simp
  then have "Solve (\<lambda>k maxDepth timeOut useSeparator buildTables. Inr ''R U'') 0 yellowCenter =
     Inr \<lparr> Solution = [''R'', ''U''], MoveCount = 2, SolveTimeMs = 0, Error = None \<rparr>"
    by (simp add: Solve_def Solve_try_def ValidateState_yellowCenter
        ToKociembaString_yellowCenter solvedKociembaString_def StartsWith_def
        new_SolveResponse_def)
  ultimately show ?thesis
    using counts_yellowCenter ValidateState_yellowCenter ToKociembaString_yellowCenter
      layout_yellowCenter
    by simp
qed

section \<open>The failures of Solve\<close>

lemma engineCodes_distinct: "distinct (map GetErrorMessage engineCodes)"
  by (simp add: engineCodes_def GetErrorMessage_def)

text \<open>
  C5.  \<open>Solve\<close> always returns a response with the elapsed milliseconds.  Whenever it
  fails (validation reports issues or throws, the conversion throws, the search engine
  throws or answers with an error code) the response carries the text of that one kind of
  failure as its error, and its move list is empty with move count 0.  When it does not
  fail, the response carries no error and the move count is the length of the move list.
  The texts of the eight codes of the engine differ from one another.
\<close>

theorem Solve_failure_response:
  "(\<exists>r. Solve solution ms state = Inr r \<and> SolveTimeMs r = ms \<and>
      (case failureOf solution state of
         Some f \<Rightarrow>
           r = \<lparr> Solution = [], MoveCount = 0, SolveTimeMs = ms, Error = Some (errorText f) \<rparr>
       | None \<Rightarrow> Error r = None \<and> MoveCount r = int (length (Solution r)))) \<and>
   distinct (map GetErrorMessage engineCodes)"
proof
  show "\<exists>r. Solve solution ms state = Inr r \<and> SolveTimeMs r = ms \<and>
      (case failureOf solution state of
         Some f \<Rightarrow>
           r = \<lparr> Solution = [], MoveCount = 0, SolveTimeMs = ms, Error = Some (errorText f) \<rparr>
       | None \<Rightarrow> Error r = None \<and> MoveCount r = int (length (Solution r)))"
    by (simp add: Solve_def Solve_try_def failureOf_def new_SolveResponse_def Let_def
        split: sum.split option.split)
next
  show "distinct (map GetErrorMessage engineCodes)"
    by (rule engineCodes_distinct)
qed

lemma turnedU_not_solved:
  "''UUUUUUUUUBBBRRRRRRRRRFFFFFFDDDDDDDDDFFFLLLLLLLLLBBBBBB'' \<noteq> solvedKociembaString"
  by (simp add: solvedKociembaString_def)

lemma failureOf_engine_error:
  "failureOf (\<lambda>k maxDepth timeOut useSeparator buildTables. Inr ''Error 8'') turnedU =
     Some (EngineError ''Error 8'')"
  by (simp add: failureOf_def ValidateState_turnedU ToKociembaString_turnedU
      turnedU_not_solved StartsWith_def)

lemma failureOf_engine_fault:
  "failureOf (\<lambda>k maxDepth timeOut useSeparator buildTables. Inl (EngineException ''fault''))
     turnedU = Some (Fault (EngineException ''fault''))"
  by (simp add: failureOf_def ValidateState_turnedU ToKociembaString_turnedU
      turnedU_not_solved)

lemma failureOf_validation:
  "failureOf solution yellowUF =
     Some (ValidationIssue
       \<lparr> MissingEdges = [''G-W''], DuplicateEdges = [''G-Y at UF, DF''], InvalidEdges = [],
         MissingCorners = [], DuplicateCorners = [], InvalidCorners = [] \<rparr>)"
  by (simp add: failureOf_def ValidateState_yellowUF)

lemma failureOf_conversion:
  "failureOf solution wrongCenters = Some (Fault (KeyNotFoundException ''X''))"
proof -
  have "ToKociembaString wrongCenters = Inl (KeyNotFoundException ''X'')"
    by code_simp
  moreover have "ValidateState wrongCenters = Inr None"
    by code_simp
  ultimately show ?thesis
    by (simp add: failureOf_def)
qed

lemma failureOf_moves:
  "failureOf (\<lambda>k maxDepth timeOut useSeparator buildTables. Inr ''R U'') turnedU = None"
  by (simp add: failureOf_def ValidateState_turnedU ToKociembaString_turnedU
      turnedU_not_solved StartsWith_def)

theorem Solve_failure_response_witness:
  "Solve (\<lambda>k maxDepth timeOut useSeparator buildTables. Inr ''Error 8'') 12 turnedU =
     Inr \<lparr> Solution = [], MoveCount = 0, SolveTimeMs = 12,
           Error = Some ''Timeout - no solution found within time limit'' \<rparr> \<and>
   Solve (\<lambda>k maxDepth timeOut useSeparator buildTables. Inl (EngineException ''fault'')) 12
       turnedU =
     Inr \<lparr> Solution = [], MoveCount = 0, SolveTimeMs = 12, Error = Some ''fault'' \<rparr> \<and>
   Solve (\<lambda>k maxDepth timeOut useSeparator buildTables. Inr ''R U'') 12 yellowUF =
     Inr \<lparr> Solution = [], MoveCount = 0, SolveTimeMs = 12,
           Error = Some
             ''Invalid cube: Missing edges: G-W. Duplicate edges: G-Y at UF, DF'' \<rparr> \<and>
   Solve (\<lambda>k maxDepth timeOut useSeparator buildTables. Inr ''R U'') 12 wrongCenters =
     Inr \<lparr> Solution = [], MoveCount = 0, SolveTimeMs = 12,
           Error = Some (Message (KeyNotFoundException ''X'')) \<rparr> \<and>
   (\<exists>r. Solve (\<lambda>k maxDepth timeOut useSeparator buildTables. Inr ''R U'') 12 turnedU = Inr r \<and>
        Error r = None \<and> MoveCount r = int (length (Solution r)))"
proof -
  have msg: "GetDetailedMessage
      \<lparr> MissingEdges = [''G-W''], DuplicateEdges = [''G-Y at UF, DF''], InvalidEdges = [],
        MissingCorners = [], DuplicateCorners = [], InvalidCorners = [] \<rparr> =
      ''Missing edges: G-W. Duplicate edges: G-Y at UF, DF''"
    by (simp add: GetDetailedMessage_def)
  have 1: "Solve (\<lambda>k maxDepth timeOut useSeparator buildTables. Inr ''Error 8'') 12 turnedU =
     Inr \<lparr> Solution = [], MoveCount = 0, SolveTimeMs = 12,
           Error = Some ''Timeout - no solution found within time limit'' \<rparr>"
    using Solve_failure_response
      [of "\<lambda>k maxDepth timeOut useSeparator buildTables. Inr ''Error 8''" 12 turnedU]
    by (auto simp add: failureOf_engine_error GetErrorMessage_def)
  have 2: "Solve (\<lambda>k maxDepth timeOut useSeparator buildTables. Inl (EngineException ''fault''))
       12 turnedU =
     Inr \<lparr> Solution = [], MoveCount = 0, SolveTimeMs = 12, Error = Some ''fault'' \<rparr>"
    using Solve_failure_response
      [of "\<lambda>k maxDepth timeOut useSeparator buildTables. Inl (EngineException ''fault'')"
        12 turnedU]
    by (auto simp add: failureOf_engine_fault)
  have 3: "Solve (\<lambda>k maxDepth timeOut useSeparator buildTables. Inr ''R U'') 12 yellowUF =
     Inr \<lparr> Solution = [], MoveCount = 0, SolveTimeMs = 12,
           Error = Some
             ''Invalid cube: Missing edges: G-W. Duplicate edges: G-Y at UF, DF'' \<rparr>"
    using Solve_failure_response
      [of "\<lambda>k maxDepth timeOut useSeparator buildTables. Inr ''R U''" 12 yellowUF]
    by (auto simp add: failureOf_validation msg)
  have 4: "Solve (\<lambda>k maxDepth timeOut useSeparator buildTables. Inr ''R U'') 12 wrongCenters =
     Inr \<lparr> Solution = [], MoveCount = 0, SolveTimeMs = 12,
           Error = Some (Message (KeyNotFoundException ''X'')) \<rparr>"
    using Solve_failure_response
      [of "\<lambda>k maxDepth timeOut useSeparator buildTables. Inr ''R U''" 12 wrongCenters]
    by (auto simp add: failureOf_conversion)
  have 5: "\<exists>r. Solve (\<lambda>k maxDepth timeOut useSeparator buildTables. Inr ''R U'') 12 turnedU =
        Inr r \<and> Error r = None \<and> MoveCount r = int (length (Solution r))"
    using Solve_failure_response
      [of "\<lambda>k maxDepth timeOut useSeparator buildTables. Inr ''R U''" 12 turnedU]
    by (auto simp add: failureOf_moves)
  from 1 2 3 4 5 show ?thesis
    by blast
qed

section \<open>The outcomes of the search\<close>

lemma scan_Inr:
  "scan elapsed t goal xs n = Inr n' \<longleftrightarrow>
     n' = n + length xs \<and> (\<forall>i<length xs. elapsed (n + i) \<le> t \<and> \<not> goal (xs ! i))"
proof (induction xs arbitrary: n)
  case Nil
  show ?case by auto
next
  case (Cons c cs)
  show ?case
    by (simp add: Cons.IH All_less_Suc2)
qed

lemma scan_TimedOut:
  "scan elapsed t goal xs n = Inl TimedOut \<longleftrightarrow>
     (\<exists>i<length xs. t < elapsed (n + i) \<and> (\<forall>j<i. elapsed (n + j) \<le> t \<and> \<not> goal (xs ! j)))"
proof (induction xs arbitrary: n)
  case Nil
  show ?case by simp
next
  case (Cons c cs)
  show ?case
    by (simp add: Cons.IH Ex_less_Suc2 All_less_Suc2)
qed

lemma scan_Found:
  "scan elapsed t goal xs n = Inl (Found c) \<longleftrightarrow>
     (\<exists>i<length xs. xs ! i = c \<and> goal c \<and> elapsed (n + i) \<le> t \<and>
        (\<forall>j<i. elapsed (n + j) \<le> t \<and> \<not> goal (xs ! j)))"
proof (induction xs arbitrary: n)
  case Nil
  show ?case by simp
next
  case (Cons x xs)
  show ?case
    by (simp add: Cons.IH Ex_less_Suc2 All_less_Suc2) auto
qed

lemma scan_not_DepthExceeded: "scan elapsed t goal xs n \<noteq> Inl DepthExceeded"
  by (induction xs arbitrary: n) simp_all

lemma scan_append:
  "scan elapsed t goal (xs @ ys) n =
     (case scan elapsed t goal xs n of Inl out \<Rightarrow> Inl out | Inr n' \<Rightarrow> scan elapsed t goal ys n')"
  by (induction xs arbitrary: n) simp_all

lemma deepen_scan:
  "deepen elapsed t goal r d n =
     (case scan elapsed t goal (concat (map sequences [d..<d + r])) n of
        Inl out \<Rightarrow> out
      | Inr n' \<Rightarrow> DepthExceeded)"
proof (induction r arbitrary: d n)
  case 0
  show ?case by simp
next
  case (Suc r)
  have "[d..<d + Suc r] = d # [Suc d..<Suc d + r]"
    by (simp add: upt_conv_Cons)
  then show ?case
    by (simp add: scan_append Suc.IH split: sum.split)
qed

lemma set_sequences:
  "set (sequences d) = {moves. length moves = d \<and> set moves \<subseteq> set moveTokens}"
proof (induction d)
  case 0
  show ?case by auto
next
  case (Suc d)
  show ?case
  proof (intro set_eqI iffI)
    fix moves
    assume "moves \<in> set (sequences (Suc d))"
    then show "moves \<in> {moves. length moves = Suc d \<and> set moves \<subseteq> set moveTokens}"
      using Suc.IH by auto
  next
    fix moves
    assume "moves \<in> {moves. length moves = Suc d \<and> set moves \<subseteq> set moveTokens}"
    then obtain m rest where "moves = m # rest" "length rest = d" "m \<in> set moveTokens"
      "set rest \<subseteq> set moveTokens"
      by (auto simp add: length_Suc_conv)
    then show "moves \<in> set (sequences (Suc d))"
      using Suc.IH by auto
  qed
qed

lemma set_candidates: "set (candidates d) = {moves. moveList d moves}"
  by (auto simp add: candidates_def set_sequences moveList_def list_all_iff)

lemma search_scan:
  "search Compose elapsed cc 22 t =
     (case scan elapsed t (solves Compose cc) (candidates 22) 0 of
        Inl out \<Rightarrow> out
      | Inr n' \<Rightarrow> DepthExceeded)"
proof -
  have "nat (22 + 1) = 23" by simp
  moreover have "[0..<0 + 23] = [0..<Suc 22]" by simp
  ultimately show ?thesis
    unfolding search_def candidates_def deepen_scan by simp
qed

lemma moveTokens_plain:
  "list_all (\<lambda>m. m \<noteq> [] \<and> CHR '' '' \<notin> set m \<and> Trim m = m \<and> \<not> IsWhiteSpace (hd m) \<and>
      hd m \<noteq> CHR ''E'') moveTokens"
  by code_simp

lemma moveToken_plain:
  assumes "m \<in> set moveTokens"
  shows "m \<noteq> []" and "CHR '' '' \<notin> set m" and "Trim m = m" and "\<not> IsWhiteSpace (hd m)"
    and "hd m \<noteq> CHR ''E''"
  using assms moveTokens_plain by (simp_all add: list_all_iff)

lemma Split_word: "sep \<notin> set w \<Longrightarrow> Split sep w = [w]"
  by (induction w) auto

lemma Split_word_sep: "sep \<notin> set w \<Longrightarrow> Split sep (w @ sep # rest) = w # Split sep rest"
  by (induction w) auto

lemma Split_Join:
  assumes "\<forall>m\<in>set moves. CHR '' '' \<notin> set m" and "moves \<noteq> []"
  shows "Split (CHR '' '') (Join '' '' moves) = moves"
  using assms
proof (induction "'' ''" moves rule: Join.induct)
  case 1
  then show ?case by simp
next
  case (2 x)
  then show ?case by (simp add: Split_word)
next
  case (3 x y ys)
  then show ?case by (simp add: Split_word_sep)
qed

lemma hd_Join: "moves \<noteq> [] \<Longrightarrow> hd moves \<noteq> [] \<Longrightarrow> hd (Join sep moves) = hd (hd moves)"
  by (induction sep moves rule: Join.induct) simp_all

lemma Join_empty: "moves \<noteq> [] \<Longrightarrow> hd moves \<noteq> [] \<Longrightarrow> Join sep moves \<noteq> []"
  by (induction sep moves rule: Join.induct) simp_all

lemma ParseSolution_Join:
  assumes "list_all (\<lambda>m. m \<in> set moveTokens) moves"
  shows "ParseSolution (Join '' '' moves) = moves"
proof (cases moves)
  case Nil
  then show ?thesis
    by (simp add: ParseSolution_def IsNullOrWhiteSpace_def)
next
  case (Cons m rest)
  from assms have tok: "\<forall>m\<in>set moves. m \<in> set moveTokens"
    by (simp add: list_all_iff)
  from Cons tok have m: "m \<in> set moveTokens"
    by simp
  have ne: "Join '' '' moves \<noteq> []"
    using Cons moveToken_plain(1) [OF m] by (simp add: Join_empty)
  have "hd (Join '' '' moves) = hd m"
    using Cons moveToken_plain(1) [OF m] by (simp add: hd_Join)
  then have "\<not> IsWhiteSpace (hd (Join '' '' moves))"
    using moveToken_plain(4) [OF m] by simp
  with ne have nw: "\<not> IsNullOrWhiteSpace (Join '' '' moves)"
    by (cases "Join '' '' moves") (simp_all add: IsNullOrWhiteSpace_def)
  have sp: "Split (CHR '' '') (Join '' '' moves) = moves"
    using tok Cons by (intro Split_Join) (auto dest: moveToken_plain(2))
  have f1: "filter (\<lambda>m. m \<noteq> []) moves = moves"
    using tok by (auto intro!: filter_True dest: moveToken_plain(1))
  have tr: "map Trim moves = moves"
    using tok by (auto intro!: map_idI dest: moveToken_plain(3))
  show ?thesis
    by (simp add: ParseSolution_def nw Split_RemoveEmptyEntries_def sp f1 tr)
qed

lemma StartsWith_Join:
  assumes "list_all (\<lambda>m. m \<in> set moveTokens) moves"
  shows "\<not> StartsWith (Join '' '' moves) ''Error''"
proof (cases moves)
  case Nil
  then show ?thesis
    by (simp add: StartsWith_def)
next
  case (Cons m rest)
  from assms Cons have m: "m \<in> set moveTokens"
    by simp
  have "hd (Join '' '' moves) = hd m"
    using Cons moveToken_plain(1) [OF m] by (simp add: hd_Join)
  then have h: "hd (Join '' '' moves) \<noteq> CHR ''E''"
    using moveToken_plain(5) [OF m] by simp
  show ?thesis
  proof
    assume "StartsWith (Join '' '' moves) ''Error''"
    then have "hd (Join '' '' moves) = CHR ''E''"
      by (cases "Join '' '' moves") (auto simp add: StartsWith_def)
    with h show False
      by simp
  qed
qed

lemma engineResponse_moves:
  assumes "list_all (\<lambda>m. m \<in> set moveTokens) moves"
  shows "engineResponse ms (Inr (Join '' '' moves)) =
     \<lparr> Solution = moves, MoveCount = int (length moves), SolveTimeMs = ms, Error = None \<rparr>"
  using StartsWith_Join [OF assms] ParseSolution_Join [OF assms]
  by (simp add: engineResponse_def)

lemma engineResponse_codes:
  "engineResponse ms (Inr ''Error 7'') = failed ms ''No solution found within max depth''"
  "engineResponse ms (Inr ''Error 8'') =
     failed ms ''Timeout - no solution found within time limit''"
  by (simp_all add: engineResponse_def StartsWith_def GetErrorMessage_def failed_def)

lemma engine_search:
  assumes "verify parse toCubieCube k = 0"
  shows "SearchRunTime_solution parse toCubieCube Compose elapsed k 22 10000 False False =
     Inr (case scan elapsed 10000 (solves Compose (toCubieCube k)) (candidates 22) 0 of
            Inl (Found moves) \<Rightarrow> Join '' '' moves
          | Inl DepthExceeded \<Rightarrow> ''Error 7''
          | Inl TimedOut \<Rightarrow> ''Error 8''
          | Inr n' \<Rightarrow> ''Error 7'')"
  using assms
  by (simp add: SearchRunTime_solution_def search_scan split: sum.split outcome.split)

lemma unsolvable_nodes:
  "(\<forall>moves. moveList d moves \<longrightarrow> \<not> goal moves) \<longleftrightarrow>
   (\<forall>i<length (candidates d). \<not> goal (candidates d ! i))"
proof -
  have "(\<forall>moves. moveList d moves \<longrightarrow> \<not> goal moves) \<longleftrightarrow>
      (\<forall>moves\<in>set (candidates d). \<not> goal moves)"
    by (simp add: set_candidates)
  then show ?thesis
    by (simp add: all_set_conv_all_nth)
qed

text \<open>
  C6.  On a cube state that passes validation and whose cube string is not the solved one
  and has no defect, \<open>Solve\<close> runs the search with the depth budget 22 and the time budget
  of 10000 milliseconds, and its response is one of three.  Either it carries no error:
  then its moves are at most 22 move tokens that solve the cube, and the move count is their
  number.  Or it is the error of the exceeded depth, which is returned exactly when no list
  of at most 22 moves solves the cube and the clock never reads more than 10000 at a
  search node.  Or it is the error of the timeout, which is returned exactly when the clock
  reads more than 10000 at a search node before which no node solves the cube.  The two
  errors differ and exclude each other.  This holds for every parser of colours, every
  converter, every move table and every clock.
\<close>

theorem Solve_search_limits:
  assumes "ValidateState cs = Inr None" and "ToKociembaString cs = Inr k"
    and "k \<noteq> solvedKociembaString" and "verify parse toCubieCube k = 0"
  shows "(\<exists>r. Solve (SearchRunTime_solution parse toCubieCube Compose elapsed) ms cs = Inr r \<and>
     SolveTimeMs r = ms \<and>
     (Error r = None \<or>
      r = failed ms ''No solution found within max depth'' \<or>
      r = failed ms ''Timeout - no solution found within time limit'') \<and>
     (Error r = None \<longrightarrow>
        MoveCount r = int (length (Solution r)) \<and> moveList 22 (Solution r) \<and>
        solves Compose (toCubieCube k) (Solution r)) \<and>
     (r = failed ms ''No solution found within max depth'' \<longleftrightarrow>
        (\<forall>moves. moveList 22 moves \<longrightarrow> \<not> solves Compose (toCubieCube k) moves) \<and>
        (\<forall>i<length (candidates 22). elapsed i \<le> 10000)) \<and>
     (r = failed ms ''Timeout - no solution found within time limit'' \<longleftrightarrow>
        (\<exists>i<length (candidates 22). 10000 < elapsed i \<and>
           (\<forall>j<i. \<not> solves Compose (toCubieCube k) (candidates 22 ! j))))) \<and>
     failed ms ''No solution found within max depth'' \<noteq>
       failed ms ''Timeout - no solution found within time limit''"
    (is "?main \<and> ?differ")
proof -
  let ?goal = "solves Compose (toCubieCube k)"
  let ?nodes = "candidates 22"
  let ?E = "SearchRunTime_solution parse toCubieCube Compose elapsed"
  let ?none = "failed ms ''No solution found within max depth''"
  let ?late = "failed ms ''Timeout - no solution found within time limit''"
  let ?quiet = "\<forall>i<length ?nodes. elapsed i \<le> 10000"
  let ?unsolvable = "\<forall>moves. moveList 22 moves \<longrightarrow> \<not> ?goal moves"
  let ?cut = "\<exists>i<length ?nodes. 10000 < elapsed i \<and> (\<forall>j<i. \<not> ?goal (?nodes ! j))"
  have S: "Solve ?E ms cs = Inr (engineResponse ms (?E k 22 10000 False False))"
    using assms(1-3) by (rule Solve_engine)
  note E = engine_search [OF assms(4), of Compose elapsed]
  have ne: "?none \<noteq> ?late"
    by (simp add: failed_def)
  have un: "?unsolvable \<longleftrightarrow> (\<forall>i<length ?nodes. \<not> ?goal (?nodes ! i))"
    by (rule unsolvable_nodes)
  consider (found) c where "scan elapsed 10000 ?goal ?nodes 0 = Inl (Found c)"
    | (timed) "scan elapsed 10000 ?goal ?nodes 0 = Inl TimedOut"
    | (none) n' where "scan elapsed 10000 ?goal ?nodes 0 = Inr n'"
  proof (cases "scan elapsed 10000 ?goal ?nodes 0")
    case (Inl out)
    then show ?thesis
      using scan_not_DepthExceeded [of elapsed 10000 ?goal ?nodes 0] that(1,2)
      by (cases out) auto
  next
    case (Inr n')
    then show ?thesis
      using that(3) by blast
  qed
  then have main: ?main
  proof cases
    case (found c)
    then obtain i where i: "i < length ?nodes" "?nodes ! i = c" "?goal c" "elapsed i \<le> 10000"
      "\<forall>j<i. elapsed j \<le> 10000 \<and> \<not> ?goal (?nodes ! j)"
      by (auto simp add: scan_Found)
    from i(1,2) have "c \<in> set ?nodes"
      by (auto simp add: in_set_conv_nth)
    then have ml: "moveList 22 c"
      by (simp add: set_candidates)
    let ?r = "\<lparr> Solution = c, MoveCount = int (length c), SolveTimeMs = ms, Error = None \<rparr>"
    have r: "Solve ?E ms cs = Inr ?r"
      using ml by (simp add: S E found engineResponse_moves moveList_def)
    have nu: "\<not> (?unsolvable \<and> ?quiet)"
      using ml i(3) by blast
    have nc: "\<not> ?cut"
    proof
      assume ?cut
      then obtain i' where i': "i' < length ?nodes" "10000 < elapsed i'"
        "\<forall>j<i'. \<not> ?goal (?nodes ! j)"
        by blast
      show False
      proof (cases "i < i'")
        case True
        with i' i(2,3) show False
          by blast
      next
        case False
        then have "i' < i \<or> i' = i"
          by auto
        with i(4,5) i'(2) show False
          by auto
      qed
    qed
    have p: "SolveTimeMs ?r = ms \<and>
      (Error ?r = None \<or> ?r = ?none \<or> ?r = ?late) \<and>
      (Error ?r = None \<longrightarrow>
        MoveCount ?r = int (length (Solution ?r)) \<and> moveList 22 (Solution ?r) \<and>
        ?goal (Solution ?r)) \<and>
      (?r = ?none \<longleftrightarrow> ?unsolvable \<and> ?quiet) \<and>
      (?r = ?late \<longleftrightarrow> ?cut)"
      using ml i(3) nu nc by (simp add: failed_def)
    show ?thesis
      by (rule exI [of _ ?r], rule conjI, rule r, rule p)
  next
    case timed
    then obtain i where i: "i < length ?nodes" "10000 < elapsed i"
      "\<forall>j<i. elapsed j \<le> 10000 \<and> \<not> ?goal (?nodes ! j)"
      by (auto simp add: scan_TimedOut)
    have r: "Solve ?E ms cs = Inr ?late"
      by (simp add: S E timed engineResponse_codes)
    have c: ?cut
      using i by blast
    have nq: "\<not> ?quiet"
      using i(1,2) by force
    have p: "SolveTimeMs ?late = ms \<and>
      (Error ?late = None \<or> ?late = ?none \<or> ?late = ?late) \<and>
      (Error ?late = None \<longrightarrow>
        MoveCount ?late = int (length (Solution ?late)) \<and> moveList 22 (Solution ?late) \<and>
        ?goal (Solution ?late)) \<and>
      (?late = ?none \<longleftrightarrow> ?unsolvable \<and> ?quiet) \<and>
      (?late = ?late \<longleftrightarrow> ?cut)"
      using c nq by (simp add: failed_def)
    show ?thesis
      by (rule exI [of _ ?late], rule conjI, rule r, rule p)
  next
    case (none n')
    then have q: "\<forall>i<length ?nodes. elapsed i \<le> 10000 \<and> \<not> ?goal (?nodes ! i)"
      by (simp add: scan_Inr)
    have r: "Solve ?E ms cs = Inr ?none"
      by (simp add: S E none engineResponse_codes)
    from q have u: "?unsolvable \<and> ?quiet"
      unfolding un by blast
    have nc: "\<not> ?cut"
      using q by force
    have p: "SolveTimeMs ?none = ms \<and>
      (Error ?none = None \<or> ?none = ?none \<or> ?none = ?late) \<and>
      (Error ?none = None \<longrightarrow>
        MoveCount ?none = int (length (Solution ?none)) \<and> moveList 22 (Solution ?none) \<and>
        ?goal (Solution ?none)) \<and>
      (?none = ?none \<longleftrightarrow> ?unsolvable \<and> ?quiet) \<and>
      (?none = ?late \<longleftrightarrow> ?cut)"
      using u nc by (simp add: failed_def)
    show ?thesis
      by (rule exI [of _ ?none], rule conjI, rule r, rule p)
  qed
  from main ne show ?thesis
    by (rule conjI)
qed

lemma candidates_prefix:
  assumes "d \<le> d'"
  shows "\<exists>rest. candidates d' = candidates d @ rest"
proof -
  from assms obtain e where e: "d' = d + e"
    by (auto simp add: le_iff_add)
  have "[0..<Suc d + e] = [0..<Suc d] @ [Suc d..<Suc d + e]"
    by (rule upt_add_eq_append) simp
  with e have "[0..<Suc d'] = [0..<Suc d] @ [Suc d..<Suc d']"
    by simp
  then have "candidates d' = candidates d @ concat (map sequences [Suc d..<Suc d'])"
    by (simp add: candidates_def)
  then show ?thesis
    by blast
qed

lemma first_nodes:
  "\<exists>rest. candidates 22 = [] # [''U''] # [''U2''] # [''U'' @ [CHR 0x27]] # rest"
proof -
  obtain rest where r: "candidates 22 = candidates 1 @ rest"
    using candidates_prefix [of 1 22] by auto
  have "take 4 (candidates 1) = [[], [''U''], [''U2''], [''U'' @ [CHR 0x27]]]"
    by code_simp
  then have "candidates 1 = [[], [''U''], [''U2''], [''U'' @ [CHR 0x27]]] @ drop 4 (candidates 1)"
    by (metis append_take_drop_id)
  with r have "candidates 22 =
      [[], [''U''], [''U2''], [''U'' @ [CHR 0x27]]] @ (drop 4 (candidates 1) @ rest)"
    by (metis append_assoc)
  then show ?thesis
    by (intro exI [of _ "drop 4 (candidates 1) @ rest"]) (simp only: append_Cons append_Nil)
qed

lemma turnedU_legal:
  "verify Enum_Parse_CubeColor (\<lambda>s. turnU new_CubieCube)
     ''UUUUUUUUUBBBRRRRRRRRRFFFFFFDDDDDDDDDFFFLLLLLLLLLBBBBBB'' = 0"
  by code_simp

lemma turnedU_back:
  "moveList 22 [''U'' @ [CHR 0x27]] \<and>
   solves (oneFace (CHR ''U'') turnU) (turnU new_CubieCube) [''U'' @ [CHR 0x27]] \<and>
   \<not> solves (oneFace (CHR ''U'') turnU) (turnU new_CubieCube) [] \<and>
   \<not> solves (oneFace (CHR ''U'') turnU) (turnU new_CubieCube) [''U'']"
  by code_simp

lemma Solve_turnedU_found:
  "Solve (SearchRunTime_solution Enum_Parse_CubeColor (\<lambda>s. turnU new_CubieCube)
       (oneFace (CHR ''U'') turnU) int) 7 turnedU =
     Inr \<lparr> Solution = [''U'' @ [CHR 0x27]], MoveCount = 1, SolveTimeMs = 7, Error = None \<rparr>"
  by code_simp

lemma lowerTurns_keep: "cp (foldl (oneFace face turnD) cc moves) ! 0 = cp cc ! 0"
proof (induction moves arbitrary: cc)
  case Nil
  show ?case by simp
next
  case (Cons m moves)
  have "cp (oneFace face turnD cc m) ! 0 = cp cc ! 0"
    by (simp add: oneFace_def turnD_def turn_def)
  then show ?case
    by (simp add: Cons.IH)
qed

lemma lowerTurns_unsolved: "\<not> solves (oneFace face turnD) (turnU new_CubieCube) moves"
proof
  assume "solves (oneFace face turnD) (turnU new_CubieCube) moves"
  then have "cp (foldl (oneFace face turnD) (turnU new_CubieCube) moves) ! 0 = cp new_CubieCube ! 0"
    by (simp add: solves_def)
  then have "cp (turnU new_CubieCube) ! 0 = cp new_CubieCube ! 0"
    by (simp add: lowerTurns_keep)
  moreover have "cp (turnU new_CubieCube) ! 0 = 3 \<and> cp new_CubieCube ! 0 = 0"
    by code_simp
  ultimately show False
    by simp
qed

theorem Solve_search_limits_witness:
  "ValidateState turnedU = Inr None \<and>
   ToKociembaString turnedU = Inr ''UUUUUUUUUBBBRRRRRRRRRFFFFFFDDDDDDDDDFFFLLLLLLLLLBBBBBB'' \<and>
   ''UUUUUUUUUBBBRRRRRRRRRFFFFFFDDDDDDDDDFFFLLLLLLLLLBBBBBB'' \<noteq> solvedKociembaString \<and>
   verify Enum_Parse_CubeColor (\<lambda>s. turnU new_CubieCube)
     ''UUUUUUUUUBBBRRRRRRRRRFFFFFFDDDDDDDDDFFFLLLLLLLLLBBBBBB'' = 0 \<and>
   Solve (SearchRunTime_solution Enum_Parse_CubeColor (\<lambda>s. turnU new_CubieCube)
       (oneFace (CHR ''U'') turnU) int) 7 turnedU =
     Inr \<lparr> Solution = [''U'' @ [CHR 0x27]], MoveCount = 1, SolveTimeMs = 7, Error = None \<rparr> \<and>
   moveList 22 [''U'' @ [CHR 0x27]] \<and>
   solves (oneFace (CHR ''U'') turnU) (turnU new_CubieCube) [''U'' @ [CHR 0x27]] \<and>
   Solve (SearchRunTime_solution Enum_Parse_CubeColor (\<lambda>s. turnU new_CubieCube)
       (oneFace (CHR ''U'') turnU) (\<lambda>n. 6000 * int n)) 7 turnedU =
     Inr (failed 7 ''Timeout - no solution found within time limit'') \<and>
   Solve (SearchRunTime_solution Enum_Parse_CubeColor (\<lambda>s. turnU new_CubieCube)
       (oneFace (CHR ''D'') turnD) (\<lambda>n. 0)) 7 turnedU =
     Inr (failed 7 ''No solution found within max depth'')"
proof -
  let ?k = "''UUUUUUUUUBBBRRRRRRRRRFFFFFFDDDDDDDDDFFFLLLLLLLLLBBBBBB''"
  let ?cc = "\<lambda>s::string. turnU new_CubieCube"
  note h = ValidateState_turnedU ToKociembaString_turnedU turnedU_not_solved turnedU_legal
  note t = Solve_search_limits [OF h, where ms = 7]
  have found: "moveList 22 [''U'' @ [CHR 0x27]] \<and>
      solves (oneFace (CHR ''U'') turnU) (turnU new_CubieCube) [''U'' @ [CHR 0x27]]"
    using t [of "oneFace (CHR ''U'') turnU" int] Solve_turnedU_found
    by auto
  obtain rest where n: "candidates 22 = [] # [''U''] # [''U2''] # [''U'' @ [CHR 0x27]] # rest"
    using first_nodes by blast
  have "2 < length (candidates 22) \<and> 10000 < 6000 * int 2 \<and>
      (\<forall>j<2. \<not> solves (oneFace (CHR ''U'') turnU) (turnU new_CubieCube) (candidates 22 ! j))"
    using turnedU_back by (simp add: n All_less_Suc2 numeral_2_eq_2)
  then have cut: "\<exists>i<length (candidates 22). 10000 < 6000 * int i \<and>
      (\<forall>j<i. \<not> solves (oneFace (CHR ''U'') turnU) (turnU new_CubieCube) (candidates 22 ! j))"
    by blast
  have late: "Solve (SearchRunTime_solution Enum_Parse_CubeColor ?cc
       (oneFace (CHR ''U'') turnU) (\<lambda>n. 6000 * int n)) 7 turnedU =
     Inr (failed 7 ''Timeout - no solution found within time limit'')"
    using t [of "oneFace (CHR ''U'') turnU" "\<lambda>n. 6000 * int n"] cut
    by auto
  have none: "Solve (SearchRunTime_solution Enum_Parse_CubeColor ?cc
       (oneFace (CHR ''D'') turnD) (\<lambda>n. 0)) 7 turnedU =
     Inr (failed 7 ''No solution found within max depth'')"
    using t [of "oneFace (CHR ''D'') turnD" "\<lambda>n. 0"] lowerTurns_unsolved
    by auto
  from h Solve_turnedU_found found late none show ?thesis
    by simp
qed

end
